theory Spec2Isabelle
  imports Complex_Main "HOL-Library.Sublist"
begin

section \<open>Python strings\<close>

text \<open>
  Strings are character lists. The few \<^verbatim>\<open>str\<close> methods that the proxy manager and the
  scraper call are written out here with the behaviour Python gives them.
\<close>

text \<open>\<^verbatim>\<open>s.split(c)\<close> for a one-character separator: one more field than separators,
  empty fields kept, \<^verbatim>\<open>''.split(c) == ['']\<close>.\<close>

fun split_on :: "char \<Rightarrow> string \<Rightarrow> string list" where
  "split_on c [] = [[]]"
| "split_on c (x # xs) =
     (if x = c then [] # split_on c xs
      else (case split_on c xs of
              [] \<Rightarrow> [[x]]
            | w # ws \<Rightarrow> (x # w) # ws))"

text \<open>\<^verbatim>\<open>sub in s\<close> on strings: \<open>sub\<close> occurs in \<open>s\<close> as a contiguous block.\<close>

fun substring_of :: "string \<Rightarrow> string \<Rightarrow> bool" where
  "substring_of sub [] = (sub = [])"
| "substring_of sub (c # cs) = (prefix sub (c # cs) \<or> substring_of sub cs)"

text \<open>\<^verbatim>\<open>s.replace(pat, '')\<close> for a non-empty \<open>pat\<close>: every occurrence, found from
  the left and not overlapping, is removed.\<close>

function remove_all :: "string \<Rightarrow> string \<Rightarrow> string" where
  "remove_all pat [] = []"
| "remove_all pat (c # cs) =
     (if pat \<noteq> [] \<and> prefix pat (c # cs)
      then remove_all pat (drop (length pat) (c # cs))
      else c # remove_all pat cs)"
  by pat_completeness auto
termination
  by (relation "measure (\<lambda>(pat, s). length s)") auto

text \<open>\<^verbatim>\<open>str.isspace\<close> on the characters below 256, and \<^verbatim>\<open>s.strip()\<close>.\<close>

definition py_isspace :: "char \<Rightarrow> bool" where
  "py_isspace c = (of_char c \<in> {9, 10, 11, 12, 13, 28, 29, 30, 31, 32, 133, 160 :: nat})"

definition strip :: "string \<Rightarrow> string" where
  "strip s = rev (dropWhile py_isspace (rev (dropWhile py_isspace s)))"

section \<open>Exceptions\<close>

text \<open>
  The exception classes of the two modules, each with the message it is raised with, and
  the built-in exceptions that the JSON walk of the extractor can raise.
  \<^verbatim>\<open>VideoNotFoundError\<close> is a subclass of \<^verbatim>\<open>YouTubeScraperError\<close>; \<^verbatim>\<open>ProxyError\<close> is not.
\<close>

datatype exn =
    ProxyError string
  | YouTubeScraperError string
  | VideoNotFoundError string
  | JSONDecodeError
  | KeyError
  | TypeError
  | AttributeError

fun str_exn :: "exn \<Rightarrow> string" where
  "str_exn (ProxyError m) = m"
| "str_exn (YouTubeScraperError m) = m"
| "str_exn (VideoNotFoundError m) = m"
| "str_exn JSONDecodeError = ''JSONDecodeError''"
| "str_exn KeyError = ''KeyError''"
| "str_exn TypeError = ''TypeError''"
| "str_exn AttributeError = ''AttributeError''"

text \<open>What \<^verbatim>\<open>except (YouTubeScraperError, VideoNotFoundError)\<close> catches.\<close>

fun is_scraper_error :: "exn \<Rightarrow> bool" where
  "is_scraper_error (YouTubeScraperError m) = True"
| "is_scraper_error (VideoNotFoundError m) = True"
| "is_scraper_error e = False"

section \<open>proxy\_manager.py\<close>

text \<open>
  \<^verbatim>\<open>ProxyManager\<close>: the health table \<^verbatim>\<open>proxy_failures\<close> (a dict from raw proxy line to
  failure count) and the list \<^verbatim>\<open>current_proxies\<close> kept by the last load.
  \<^verbatim>\<open>max_failures\<close> and \<^verbatim>\<open>proxies_file\<close> are set once in \<^verbatim>\<open>__init__\<close> and never
  assigned again, so they are constants here.
\<close>

record pm_state =
  proxy_failures :: "string \<rightharpoonup> int"
  current_proxies :: "string list"

definition max_failures :: int where
  "max_failures = 5"

definition init_pm :: pm_state where
  "init_pm = \<lparr>proxy_failures = Map.empty, current_proxies = []\<rparr>"

text \<open>\<^verbatim>\<open>d.get(k, 0)\<close>.\<close>

definition get0 :: "(string \<rightharpoonup> int) \<Rightarrow> string \<Rightarrow> int" where
  "get0 d k = (case d k of None \<Rightarrow> 0 | Some n \<Rightarrow> n)"

text \<open>
  \<^verbatim>\<open>load_proxies\<close>. The file is an input of the call: \<open>None\<close> when
  \<^verbatim>\<open>proxies.txt\<close> does not exist, otherwise its lines as iteration over the file
  yields them. A missing file returns the empty list and leaves \<^verbatim>\<open>current_proxies\<close>
  as it was; the comment test looks at the line before stripping.
\<close>

definition load_proxies :: "string list option \<Rightarrow> pm_state \<Rightarrow> string list \<times> pm_state" where
  "load_proxies file s =
     (case file of
        None \<Rightarrow> ([], s)
      | Some lines \<Rightarrow>
          (let proxies = map strip
                 (filter (\<lambda>line. strip line \<noteq> [] \<and> \<not> prefix ''#'' line) lines)
           in (proxies, s\<lparr>current_proxies := proxies\<rparr>)))"

text \<open>\<^verbatim>\<open>format_proxy_url\<close>. Every exception of the body is re-raised as
  \<^verbatim>\<open>ProxyError\<close> with the same message.\<close>

definition format_proxy_url :: "string \<Rightarrow> exn + string" where
  "format_proxy_url proxy_line =
     (if CHR ''@'' \<in> set proxy_line then Inr (''http://'' @ proxy_line)
      else (case split_on CHR '':'' proxy_line of
              [ip, port, username, password] \<Rightarrow>
                Inr (''http://'' @ username @ '':'' @ password @ ''@'' @ ip @ '':'' @ port)
            | [ip, port] \<Rightarrow> Inr (''http://'' @ ip @ '':'' @ port)
            | _ \<Rightarrow> Inl (ProxyError (''Invalid proxy format: '' @ proxy_line))))"

text \<open>
  \<^verbatim>\<open>get_proxy\<close>. \<open>r\<close> stands for the random draw: \<^verbatim>\<open>random.choice\<close> returns the
  element at some index of the non-empty list it is given. The state changes of the call
  (the reload, the soft reset) stay when the call raises.
\<close>

definition get_proxy :: "string list option \<Rightarrow> nat \<Rightarrow> pm_state \<Rightarrow> (exn + string) \<times> pm_state" where
  "get_proxy file r s =
     (let (proxies, s1) = load_proxies file s in
      if proxies = [] then (Inl (ProxyError ''No proxies available''), s1)
      else
        let working_proxies =
              filter (\<lambda>p. get0 (proxy_failures s1) p < max_failures) proxies;
            (working_proxies, s2) =
              (if working_proxies = []
               then (proxies, s1\<lparr>proxy_failures := Map.empty\<rparr>)
               else (working_proxies, s1));
            proxy = working_proxies ! (r mod length working_proxies)
        in (format_proxy_url proxy, s2))"

text \<open>
  The block that opens both \<^verbatim>\<open>record_failure\<close> and \<^verbatim>\<open>clear_failures\<close> (commented as converting the URL
  format back to the storage format): the loop over \<^verbatim>\<open>current_proxies\<close> with its
  \<^verbatim>\<open>break\<close>, and the key it leaves in the variable \<^verbatim>\<open>proxy\<close>.
\<close>

fun first_containing :: "string \<Rightarrow> string list \<Rightarrow> string" where
  "first_containing proxy [] = proxy"
| "first_containing proxy (p # ps) =
     (if substring_of proxy p then p else first_containing proxy ps)"

definition storage_key :: "string \<Rightarrow> pm_state \<Rightarrow> string" where
  "storage_key proxy_url s =
     (if CHR ''@'' \<in> set proxy_url
      then first_containing (hd (split_on CHR '':'' (split_on CHR ''@'' proxy_url ! 1)))
             (current_proxies s)
      else remove_all ''http://'' proxy_url)"

definition record_failure :: "string \<Rightarrow> pm_state \<Rightarrow> pm_state" where
  "record_failure proxy_url s =
     (let proxy = storage_key proxy_url s
      in s\<lparr>proxy_failures := (proxy_failures s)(proxy \<mapsto> get0 (proxy_failures s) proxy + 1)\<rparr>)"

definition clear_failures :: "string \<Rightarrow> pm_state \<Rightarrow> pm_state" where
  "clear_failures proxy_url s =
     (let proxy = storage_key proxy_url s
      in if proxy \<in> dom (proxy_failures s)
         then s\<lparr>proxy_failures := (proxy_failures s)(proxy := None)\<rparr>
         else s)"

text \<open>\<^verbatim>\<open>list_proxies\<close>: one dict per loaded line, here a record with the fields
  \<^verbatim>\<open>proxy\<close>, \<^verbatim>\<open>failures\<close> and \<^verbatim>\<open>status\<close>.\<close>

record proxy_info =
  info_proxy :: string
  info_failures :: int
  info_status :: string

definition list_proxies :: "string list option \<Rightarrow> pm_state \<Rightarrow> proxy_info list \<times> pm_state" where
  "list_proxies file s =
     (let (proxies, s1) = load_proxies file s
      in (map (\<lambda>p. \<lparr>info_proxy = p,
                     info_failures = get0 (proxy_failures s1) p,
                     info_status = (if get0 (proxy_failures s1) p \<ge> max_failures
                               then ''banned'' else ''active'')\<rparr>) proxies,
          s1))"

section \<open>youtube\_scraper.py: \_make\_request\<close>

text \<open>
  What \<^verbatim>\<open>session.get\<close> does is an input: it raises a \<^verbatim>\<open>RequestException\<close> (with
  the text \<^verbatim>\<open>str\<close> gives for it) or returns a response. \<open>error_text\<close> is the text of
  the \<^verbatim>\<open>HTTPError\<close> that \<^verbatim>\<open>raise_for_status\<close> builds for the response; it raises
  for the status codes 400 to 599.
\<close>

record response =
  status_code :: int
  text_of :: string
  error_text :: string

datatype http_result = RequestException string | Response response

definition make_request ::
  "(string \<Rightarrow> string \<Rightarrow> http_result) \<Rightarrow> string \<Rightarrow> string \<Rightarrow> exn + string" where
  "make_request session_get url proxy =
     (case session_get url proxy of
        RequestException m \<Rightarrow> Inl (YouTubeScraperError (''Request failed: '' @ m))
      | Response resp \<Rightarrow>
          if 400 \<le> status_code resp \<and> status_code resp < 600
          then Inl (YouTubeScraperError (''Request failed: '' @ error_text resp))
          else if length (text_of resp) < 1000
          then Inl (YouTubeScraperError ''Response too short, might be blocked'')
          else Inr (text_of resp))"

section \<open>youtube\_scraper.py: \_extract\_video\_id\<close>

subsection \<open>The three regular expressions\<close>

text \<open>
  \<^verbatim>\<open>re.search\<close> tries the pattern at every start position from the left and returns
  the first match. \<open>re_search m\<close> does that for a matcher \<open>m\<close> anchored at the start
  of its argument; each matcher returns group 1 of its pattern.
\<close>

fun re_search :: "(string \<Rightarrow> 'a option) \<Rightarrow> string \<Rightarrow> 'a option" where
  "re_search m [] = m []"
| "re_search m (c # cs) =
     (case m (c # cs) of Some g \<Rightarrow> Some g | None \<Rightarrow> re_search m cs)"

abbreviation dq :: char where
  "dq \<equiv> CHR 0x22"

text \<open>Method 1: the text \<open>dq videoRenderer dq :{ dq videoId dq : dq\<close>, then one or more
  characters other than \<open>dq\<close> (the group), then \<open>dq\<close>.\<close>

definition script_prefix :: string where
  "script_prefix = [dq] @ ''videoRenderer'' @ [dq] @ '':{'' @ [dq] @ ''videoId'' @ [dq] @ '':'' @ [dq]"

definition match_script :: "string \<Rightarrow> string option" where
  "match_script s =
     (if prefix script_prefix s
      then (let rest = drop (length script_prefix) s;
                g = takeWhile (\<lambda>c. c \<noteq> dq) rest
            in if g \<noteq> [] \<and> length g < length rest then Some g else None)
      else None)"

text \<open>Method 2: \<^verbatim>\<open>var ytInitialData = ({.*?});</script>\<close> with \<^verbatim>\<open>DOTALL\<close>: the
  group runs from the opening brace to the first closing brace that \<^verbatim>\<open>;</script>\<close>
  follows.\<close>

fun before_first :: "string \<Rightarrow> string \<Rightarrow> string option" where
  "before_first pat [] = (if pat = [] then Some [] else None)"
| "before_first pat (c # cs) =
     (if prefix pat (c # cs) then Some []
      else map_option ((#) c) (before_first pat cs))"

definition match_data :: "string \<Rightarrow> string option" where
  "match_data s =
     (if prefix ''var ytInitialData = {'' s
      then map_option (\<lambda>x. ''{'' @ x @ ''}'')
             (before_first ''};</script>'' (drop (length ''var ytInitialData = {'') s))
      else None)"

text \<open>Method 3: \<^verbatim>\<open>/watch\?v=([^&]+)\<close>.\<close>

definition match_watch :: "string \<Rightarrow> string option" where
  "match_watch s =
     (if prefix ''/watch?v='' s
      then (let g = takeWhile (\<lambda>c. c \<noteq> CHR ''&'') (drop (length ''/watch?v='') s)
            in if g \<noteq> [] then Some g else None)
      else None)"

subsection \<open>JSON values and the operations of the walk\<close>

text \<open>
  What \<^verbatim>\<open>json.loads\<close> returns. An object is the list of its items in insertion order,
  with distinct keys as in a Python dict. The operations below are the four that method 2
  applies, with the exception Python raises on each kind of value.
\<close>

datatype json =
    JNull
  | JBool bool
  | JNum real
  | JStr string
  | JArr "json list"
  | JObj "(string \<times> json) list"

text \<open>\<^verbatim>\<open>v.get(k, d)\<close>: only a dict has the method.\<close>

fun py_get :: "json \<Rightarrow> string \<Rightarrow> json \<Rightarrow> exn + json" where
  "py_get (JObj kvs) k d = Inr (case map_of kvs k of None \<Rightarrow> d | Some v \<Rightarrow> v)"
| "py_get v k d = Inl AttributeError"

text \<open>\<^verbatim>\<open>for x in v\<close>: a list gives its elements, a dict its keys, a string its
  characters; nothing else can be iterated.\<close>

fun py_iter :: "json \<Rightarrow> exn + json list" where
  "py_iter (JArr xs) = Inr xs"
| "py_iter (JObj kvs) = Inr (map (\<lambda>kv. JStr (fst kv)) kvs)"
| "py_iter (JStr s) = Inr (map (\<lambda>c. JStr [c]) s)"
| "py_iter v = Inl TypeError"

text \<open>\<^verbatim>\<open>k in v\<close> for a string \<open>k\<close>.\<close>

fun py_in :: "string \<Rightarrow> json \<Rightarrow> exn + bool" where
  "py_in k (JObj kvs) = Inr (k \<in> set (map fst kvs))"
| "py_in k (JArr xs) = Inr (JStr k \<in> set xs)"
| "py_in k (JStr s) = Inr (substring_of k s)"
| "py_in k v = Inl TypeError"

text \<open>\<^verbatim>\<open>v[k]\<close> for a string \<open>k\<close>.\<close>

fun py_getitem :: "json \<Rightarrow> string \<Rightarrow> exn + json" where
  "py_getitem (JObj kvs) k = (case map_of kvs k of None \<Rightarrow> Inl KeyError | Some v \<Rightarrow> Inr v)"
| "py_getitem v k = Inl TypeError"

definition bind_exn :: "exn + 'a \<Rightarrow> ('a \<Rightarrow> exn + 'b) \<Rightarrow> exn + 'b" where
  "bind_exn r f = (case r of Inl e \<Rightarrow> Inl e | Inr v \<Rightarrow> f v)"

subsection \<open>Method 2\<close>

text \<open>The inner loop over \<open>items\<close>: \<open>Inr (Some v)\<close> is the \<^verbatim>\<open>return\<close>,
  \<open>Inr None\<close> the end of the loop.\<close>

fun scan_items :: "json list \<Rightarrow> exn + json option" where
  "scan_items [] = Inr None"
| "scan_items (item # items) =
     bind_exn (py_in ''videoRenderer'' item) (\<lambda>found.
       if found
       then bind_exn (py_getitem item ''videoRenderer'') (\<lambda>vr.
            bind_exn (py_getitem vr ''videoId'') (\<lambda>vid. Inr (Some vid)))
       else scan_items items)"

text \<open>The outer loop over \<open>contents\<close>.\<close>

fun scan_contents :: "json list \<Rightarrow> exn + json option" where
  "scan_contents [] = Inr None"
| "scan_contents (content # rest) =
     bind_exn (py_get content ''itemSectionRenderer'' (JObj [])) (\<lambda>isr.
     bind_exn (py_get isr ''contents'' (JArr [])) (\<lambda>items.
     bind_exn (py_iter items) (\<lambda>its.
     bind_exn (scan_items its) (\<lambda>r.
       case r of Some vid \<Rightarrow> Inr (Some vid) | None \<Rightarrow> scan_contents rest))))"

text \<open>The body of the \<^verbatim>\<open>try\<close>, after \<^verbatim>\<open>json.loads\<close>.\<close>

definition walk_initial_data :: "json \<Rightarrow> exn + json option" where
  "walk_initial_data data =
     bind_exn (py_get data ''contents'' (JObj [])) (\<lambda>a.
     bind_exn (py_get a ''twoColumnSearchResultsRenderer'' (JObj [])) (\<lambda>b.
     bind_exn (py_get b ''primaryContents'' (JObj [])) (\<lambda>c.
     bind_exn (py_get c ''sectionListRenderer'' (JObj [])) (\<lambda>d.
     bind_exn (py_get d ''contents'' (JArr [])) (\<lambda>contents.
     bind_exn (py_iter contents) scan_contents)))))"

text \<open>What \<^verbatim>\<open>except (json.JSONDecodeError, KeyError, TypeError)\<close> catches.\<close>

fun caught_by_method2 :: "exn \<Rightarrow> bool" where
  "caught_by_method2 JSONDecodeError = True"
| "caught_by_method2 KeyError = True"
| "caught_by_method2 TypeError = True"
| "caught_by_method2 e = False"

text \<open>
  Method 2 as a whole. \<open>json_loads\<close> is \<^verbatim>\<open>json.loads\<close>, \<open>None\<close> where it raises
  \<^verbatim>\<open>JSONDecodeError\<close>. \<open>Inr None\<close>: nothing found, go on to method 3; \<open>Inl e\<close>:
  an exception that the handler does not catch.
\<close>

definition method2 :: "(string \<Rightarrow> json option) \<Rightarrow> string \<Rightarrow> exn + json option" where
  "method2 json_loads html =
     (case re_search match_data html of
        None \<Rightarrow> Inr None
      | Some blob \<Rightarrow>
          (case (case json_loads blob of
                   None \<Rightarrow> Inl JSONDecodeError
                 | Some data \<Rightarrow> walk_initial_data data) of
             Inr r \<Rightarrow> Inr r
           | Inl e \<Rightarrow> if caught_by_method2 e then Inr None else Inl e))"

subsection \<open>Method 3 and the whole function\<close>

text \<open>The loop over the anchors with an \<^verbatim>\<open>href\<close>, given as the list of their
  \<^verbatim>\<open>href\<close> values in document order.\<close>

fun first_watch_link :: "string list \<Rightarrow> string option" where
  "first_watch_link [] = None"
| "first_watch_link (href # hrefs) =
     (case re_search match_watch href of
        Some g \<Rightarrow> Some g
      | None \<Rightarrow> first_watch_link hrefs)"

text \<open>
  \<^verbatim>\<open>_extract_video_id\<close>. \<open>anchor_hrefs html\<close> is what
  the \<^verbatim>\<open>find_all('a', href=True)\<close> of the lxml parse of the page finds. Methods 1 and 3 return a
  string; method 2 returns whatever value sits under \<^verbatim>\<open>videoId\<close>.
\<close>

definition extract_video_id ::
  "(string \<Rightarrow> json option) \<Rightarrow> (string \<Rightarrow> string list) \<Rightarrow> string \<Rightarrow> exn + json" where
  "extract_video_id json_loads anchor_hrefs html =
     (case re_search match_script html of
        Some g \<Rightarrow> Inr (JStr g)
      | None \<Rightarrow>
          (case method2 json_loads html of
             Inl e \<Rightarrow> Inl e
           | Inr (Some vid) \<Rightarrow> Inr vid
           | Inr None \<Rightarrow>
               (case first_watch_link (anchor_hrefs html) of
                  Some g \<Rightarrow> Inr (JStr g)
                | None \<Rightarrow>
                    Inl (VideoNotFoundError ''Could not find any video IDs in the response''))))"

section \<open>youtube\_scraper.py: get\_first\_video\_id\<close>

text \<open>
  What one pass of the loop reads from outside the program: the proxy file at the time of
  the reload, the random draw, and the behaviour of the HTTP session. \<open>env n\<close> is the
  world of the pass that starts with \<^verbatim>\<open>attempts == n\<close>.
\<close>

record world =
  proxy_file :: "string list option"
  draw :: nat
  session_get :: "string \<Rightarrow> string \<Rightarrow> http_result"

text \<open>
  The log of a run: the calls the loop makes and the exceptions its handler catches, in
  order. It is kept beside the state; the program does not read it.
\<close>

datatype event =
    GetProxy
  | MakeRequest string string
  | ExtractVideoId string
  | ClearFailures string
  | Caught exn
  | RecordFailure string
  | Sleep

record run =
  pm :: pm_state
  calls :: "event list"

definition max_attempts :: nat where
  "max_attempts = 10"

text \<open>\<^verbatim>\<open>str(last_error)\<close>; \<^verbatim>\<open>last_error\<close> starts as \<^verbatim>\<open>None\<close>.\<close>

fun str_last :: "exn option \<Rightarrow> string" where
  "str_last None = ''None''"
| "str_last (Some e) = str_exn e"

text \<open>The second and third statement of the \<^verbatim>\<open>try\<close> block, with the calls made.\<close>

definition fetch_and_extract ::
  "(string \<Rightarrow> json option) \<Rightarrow> (string \<Rightarrow> string list) \<Rightarrow> (string \<Rightarrow> string \<Rightarrow> http_result)
     \<Rightarrow> string \<Rightarrow> string \<Rightarrow> (exn + json) \<times> event list" where
  "fetch_and_extract json_loads anchor_hrefs sget url proxy =
     (case make_request sget url proxy of
        Inl e \<Rightarrow> (Inl e, [MakeRequest url proxy])
      | Inr html \<Rightarrow>
          (extract_video_id json_loads anchor_hrefs html,
           [MakeRequest url proxy, ExtractVideoId html]))"

text \<open>
  The \<^verbatim>\<open>while\<close> loop with the \<^verbatim>\<open>raise\<close> that follows it. An exception of
  \<^verbatim>\<open>get_proxy\<close> is a \<^verbatim>\<open>ProxyError\<close> and passes the handler; so does every
  exception of the body that is not a \<^verbatim>\<open>YouTubeScraperError\<close>.
\<close>

function retry_loop ::
  "(string \<Rightarrow> json option) \<Rightarrow> (string \<Rightarrow> string list) \<Rightarrow> (nat \<Rightarrow> world) \<Rightarrow> string
     \<Rightarrow> nat \<Rightarrow> exn option \<Rightarrow> run \<Rightarrow> (exn + json) \<times> run" where
  "retry_loop json_loads anchor_hrefs env url attempts last_error st =
     (if attempts < max_attempts then
        (case get_proxy (proxy_file (env attempts)) (draw (env attempts)) (pm st) of
           (Inl e, pm1) \<Rightarrow> (Inl e, \<lparr>pm = pm1, calls = calls st @ [GetProxy]\<rparr>)
         | (Inr proxy, pm1) \<Rightarrow>
             (case fetch_and_extract json_loads anchor_hrefs
                     (session_get (env attempts)) url proxy of
                (Inr video_id, cs) \<Rightarrow>
                  (Inr video_id,
                   \<lparr>pm = clear_failures proxy pm1,
                    calls = calls st @ [GetProxy] @ cs @ [ClearFailures proxy]\<rparr>)
              | (Inl e, cs) \<Rightarrow>
                  if is_scraper_error e
                  then retry_loop json_loads anchor_hrefs env url (attempts + 1) (Some e)
                         \<lparr>pm = record_failure proxy pm1,
                          calls = calls st @ [GetProxy] @ cs @ [Caught e, RecordFailure proxy]
                                  @ (if attempts + 1 < max_attempts then [Sleep] else [])\<rparr>
                  else (Inl e, \<lparr>pm = pm1, calls = calls st @ [GetProxy] @ cs\<rparr>)))
      else
        (Inl (YouTubeScraperError (''Max retry attempts reached: '' @ str_last last_error)),
         st))"
  by pat_completeness auto
termination
  by (relation "measure (\<lambda>(l, h, env, url, attempts, last_error, st). max_attempts - attempts)")
     auto

declare retry_loop.simps [simp del]

definition get_first_video_id ::
  "(string \<Rightarrow> json option) \<Rightarrow> (string \<Rightarrow> string list) \<Rightarrow> (nat \<Rightarrow> world) \<Rightarrow> string
     \<Rightarrow> pm_state \<Rightarrow> (exn + json) \<times> run" where
  "get_first_video_id json_loads anchor_hrefs env search_term s =
     retry_loop json_loads anchor_hrefs env
       (''https://www.youtube.com/results?search_query='' @ search_term)
       0 None \<lparr>pm = s, calls = []\<rparr>"

section \<open>Notions used to state the properties\<close>

text \<open>
  The health-table key as a description in words has it: the text after the first
  \<open>@\<close> of the URL up to the next colon, replaced by the first loaded line that contains
  it, and kept when no loaded line does.
\<close>

definition claimed_key :: "string \<Rightarrow> string list \<Rightarrow> string" where
  "claimed_key url loaded =
     (let host = takeWhile (\<lambda>c. c \<noteq> CHR '':'') (tl (dropWhile (\<lambda>c. c \<noteq> CHR ''@'') url))
      in case find (substring_of host) loaded of None \<Rightarrow> host | Some p \<Rightarrow> p)"

text \<open>
  The same with the fragment cut at the next colon or the next \<open>@\<close>, whichever comes
  first.
\<close>

definition host_fragment :: "string \<Rightarrow> string" where
  "host_fragment url =
     takeWhile (\<lambda>c. c \<noteq> CHR '':'' \<and> c \<noteq> CHR ''@'') (tl (dropWhile (\<lambda>c. c \<noteq> CHR ''@'') url))"

definition fragment_key :: "string \<Rightarrow> string list \<Rightarrow> string" where
  "fragment_key url loaded =
     (case find (substring_of (host_fragment url)) loaded of
        None \<Rightarrow> host_fragment url
      | Some p \<Rightarrow> p)"

text \<open>A pool of two proxies on one host, and a result page whose initial data has
  \<^verbatim>\<open>null\<close> under \<^verbatim>\<open>contents\<close> and whose only anchor is a watch link.\<close>

definition shared_host_pool :: "string list" where
  "shared_host_pool = [''1.2.3.4:80:u1:p1'', ''1.2.3.4:81:u2:p2'']"

definition example_blob :: string where
  "example_blob = ''{'' @ [dq] @ ''contents'' @ [dq] @ '': null}''"

definition example_page :: string where
  "example_page = ''<script>var ytInitialData = '' @ example_blob @ '';</script><a href=''
     @ [dq] @ ''/watch?v=xyz789'' @ [dq] @ ''>x</a>''"

text \<open>
  The shape of a run's log. A failed pass is a selection, a request, an extraction if the
  request returned a page, the exception caught, and the failure recorded for the proxy
  of the request; it is described by that proxy, the page if any, and the exception.
  Failed passes that are followed by another pass end with the delay.
\<close>

type_synonym failed_attempt = "string \<times> string option \<times> exn"

definition failed_pass :: "string \<Rightarrow> failed_attempt \<Rightarrow> event list" where
  "failed_pass url a =
     (case a of (proxy, page, e) \<Rightarrow>
        [GetProxy, MakeRequest url proxy]
        @ (case page of None \<Rightarrow> [] | Some html \<Rightarrow> [ExtractVideoId html])
        @ [Caught e, RecordFailure proxy])"

definition failed_passes :: "string \<Rightarrow> failed_attempt list \<Rightarrow> event list" where
  "failed_passes url ps = concat (map (\<lambda>a. failed_pass url a @ [Sleep]) ps)"

definition attempt_failed ::
  "(string \<Rightarrow> json option) \<Rightarrow> (string \<Rightarrow> string list) \<Rightarrow> failed_attempt \<Rightarrow> bool" where
  "attempt_failed json_loads anchor_hrefs a =
     (case a of (proxy, page, e) \<Rightarrow>
        is_scraper_error e
        \<and> (case page of
             None \<Rightarrow> True
           | Some html \<Rightarrow> extract_video_id json_loads anchor_hrefs html = Inl e))"

text \<open>
  How a run ends: the selection raises; the extraction returns an identifier; the
  extraction raises an exception that the handler lets through; or the tenth pass fails
  like the ones before it. Each ending has its events, its result, and the facts that
  hold of it after \<open>n\<close> failed passes.
\<close>

datatype ending =
    ProxyFailed exn
  | Succeeded string string json
  | Escaped string string exn
  | Exhausted failed_attempt

fun final_events :: "string \<Rightarrow> ending \<Rightarrow> event list" where
  "final_events url (ProxyFailed e) = [GetProxy]"
| "final_events url (Succeeded proxy html vid) =
     [GetProxy, MakeRequest url proxy, ExtractVideoId html, ClearFailures proxy]"
| "final_events url (Escaped proxy html e) =
     [GetProxy, MakeRequest url proxy, ExtractVideoId html]"
| "final_events url (Exhausted a) = failed_pass url a"

fun final_result :: "ending \<Rightarrow> exn + json" where
  "final_result (ProxyFailed e) = Inl e"
| "final_result (Succeeded proxy html vid) = Inr vid"
| "final_result (Escaped proxy html e) = Inl e"
| "final_result (Exhausted a) =
     Inl (YouTubeScraperError (''Max retry attempts reached: '' @ str_exn (snd (snd a))))"

fun selection_error :: "exn \<Rightarrow> bool" where
  "selection_error (ProxyError m) =
     (m = ''No proxies available'' \<or> prefix ''Invalid proxy format: '' m)"
| "selection_error e = False"

fun ending_ok ::
  "(string \<Rightarrow> json option) \<Rightarrow> (string \<Rightarrow> string list) \<Rightarrow> nat \<Rightarrow> ending \<Rightarrow> bool" where
  "ending_ok json_loads anchor_hrefs n (ProxyFailed e) = selection_error e"
| "ending_ok json_loads anchor_hrefs n (Succeeded proxy html vid) =
     (extract_video_id json_loads anchor_hrefs html = Inr vid)"
| "ending_ok json_loads anchor_hrefs n (Escaped proxy html e) =
     (extract_video_id json_loads anchor_hrefs html = Inl e \<and> \<not> is_scraper_error e)"
| "ending_ok json_loads anchor_hrefs n (Exhausted a) =
     (attempt_failed json_loads anchor_hrefs a \<and> Suc n = max_attempts)"

text \<open>
  The manager's state along a run. \<open>replay\<close> goes through the failed passes from pass
  \<open>a\<close> and state \<open>s\<close>: in each, the selection of that pass's world must return the proxy
  of the pass, the request and extraction through it must raise the exception of the
  pass with the events of the pass, and the state goes on as the selection left it with
  the failure recorded for that proxy. \<open>used_proxy\<close> is what the selection of the last
  pass returns, and \<open>final_pm\<close> what the ending does to the state that selection left.
\<close>

fun used_proxy :: "ending \<Rightarrow> exn + string" where
  "used_proxy (ProxyFailed e) = Inl e"
| "used_proxy (Succeeded proxy html vid) = Inr proxy"
| "used_proxy (Escaped proxy html e) = Inr proxy"
| "used_proxy (Exhausted a) = Inr (fst a)"

fun final_pm :: "ending \<Rightarrow> pm_state \<Rightarrow> pm_state" where
  "final_pm (ProxyFailed e) pm1 = pm1"
| "final_pm (Succeeded proxy html vid) pm1 = clear_failures proxy pm1"
| "final_pm (Escaped proxy html e) pm1 = pm1"
| "final_pm (Exhausted a) pm1 = record_failure (fst a) pm1"

fun replay ::
  "(string \<Rightarrow> json option) \<Rightarrow> (string \<Rightarrow> string list) \<Rightarrow> (nat \<Rightarrow> world) \<Rightarrow> string \<Rightarrow> nat
     \<Rightarrow> pm_state \<Rightarrow> failed_attempt list \<Rightarrow> pm_state option" where
  "replay json_loads anchor_hrefs env url a s [] = Some s"
| "replay json_loads anchor_hrefs env url a s (x # ps) =
     (case get_proxy (proxy_file (env a)) (draw (env a)) s of
        (Inl e, pm1) \<Rightarrow> None
      | (Inr proxy, pm1) \<Rightarrow>
          (case fetch_and_extract json_loads anchor_hrefs (session_get (env a)) url proxy of
             (Inr vid, cs) \<Rightarrow> None
           | (Inl e, cs) \<Rightarrow>
               if is_scraper_error e
                  \<and> failed_pass url x = [GetProxy] @ cs @ [Caught e, RecordFailure proxy]
               then replay json_loads anchor_hrefs env url (a + 1) (record_failure proxy pm1) ps
               else None))"

text \<open>Kinds of events, for counting them.\<close>

fun is_request :: "event \<Rightarrow> bool" where
  "is_request (MakeRequest url proxy) = True"
| "is_request ev = False"

fun is_extract :: "event \<Rightarrow> bool" where
  "is_extract (ExtractVideoId html) = True"
| "is_extract ev = False"

fun is_caught :: "event \<Rightarrow> bool" where
  "is_caught (Caught e) = True"
| "is_caught ev = False"

fun is_exhausted :: "ending \<Rightarrow> bool" where
  "is_exhausted (Exhausted a) = True"
| "is_exhausted en = False"

text \<open>The exceptions that the operations of the JSON walk raise.\<close>

fun walk_exn :: "exn \<Rightarrow> bool" where
  "walk_exn AttributeError = True"
| "walk_exn TypeError = True"
| "walk_exn KeyError = True"
| "walk_exn e = False"

text \<open>The URL that \<^verbatim>\<open>get_first_video_id\<close> requests for a search term.\<close>

definition search_url :: "string \<Rightarrow> string" where
  "search_url search_term = ''https://www.youtube.com/results?search_query='' @ search_term"

text \<open>
  Worlds for concrete runs: a JSON loader and an anchor finder that find nothing, a
  session that refuses every connection and one that serves a page with a result in it,
  and proxy files with one well-formed line, with one malformed line, and missing.
\<close>

definition no_loads :: "string \<Rightarrow> json option" where
  "no_loads blob = None"

definition no_hrefs :: "string \<Rightarrow> string list" where
  "no_hrefs html = []"

definition refused :: "string \<Rightarrow> string \<Rightarrow> http_result" where
  "refused url proxy = RequestException ''connection refused''"

definition result_page :: string where
  "result_page = script_prefix @ ''abc123'' @ [dq] @ replicate 1000 CHR ''x''"

definition serving :: "string \<Rightarrow> string \<Rightarrow> http_result" where
  "serving url proxy = Response \<lparr>status_code = 200, text_of = result_page, error_text = []\<rparr>"

definition refusing_world :: "nat \<Rightarrow> world" where
  "refusing_world n = \<lparr>proxy_file = Some [''1.2.3.4:80\<newline>''], draw = 0, session_get = refused\<rparr>"

definition serving_world :: "nat \<Rightarrow> world" where
  "serving_world n = \<lparr>proxy_file = Some [''1.2.3.4:80\<newline>''], draw = 0, session_get = serving\<rparr>"

definition malformed_world :: "nat \<Rightarrow> world" where
  "malformed_world n = \<lparr>proxy_file = Some [''a:b:c\<newline>''], draw = 0, session_get = refused\<rparr>"

definition missing_world :: "nat \<Rightarrow> world" where
  "missing_world n = \<lparr>proxy_file = None, draw = 0, session_get = refused\<rparr>"

text \<open>
  More worlds: a session that answers with status 302 and the result page; a proxy file
  that is there at the first pass and gone afterwards; a session that refuses the first
  pass and serves afterwards; and the pool of two proxies on one host with the second
  drawn, together with a manager that has counted 3 failures for the second line and 4
  for the first.
\<close>

definition redirected :: "string \<Rightarrow> string \<Rightarrow> http_result" where
  "redirected url proxy = Response \<lparr>status_code = 302, text_of = result_page, error_text = []\<rparr>"

definition redirect_world :: "nat \<Rightarrow> world" where
  "redirect_world n =
     \<lparr>proxy_file = Some [''1.2.3.4:80\<newline>''], draw = 0, session_get = redirected\<rparr>"

definition vanishing_world :: "nat \<Rightarrow> world" where
  "vanishing_world n =
     \<lparr>proxy_file = (if n = 0 then Some [''1.2.3.4:80\<newline>''] else None), draw = 0,
      session_get = refused\<rparr>"

definition late_world :: "nat \<Rightarrow> world" where
  "late_world n =
     \<lparr>proxy_file = Some [''1.2.3.4:80\<newline>''], draw = 0,
      session_get = (if n = 0 then refused else serving)\<rparr>"

definition shared_serving_world :: "nat \<Rightarrow> world" where
  "shared_serving_world n =
     \<lparr>proxy_file = Some [''1.2.3.4:80:u1:p1\<newline>'', ''1.2.3.4:81:u2:p2\<newline>''], draw = 1,
      session_get = serving\<rparr>"

definition counted_pm :: pm_state where
  "counted_pm =
     \<lparr>proxy_failures = [''1.2.3.4:81:u2:p2'' \<mapsto> 3, ''1.2.3.4:80:u1:p1'' \<mapsto> 4],
      current_proxies = []\<rparr>"

text \<open>A loader and an anchor finder for the example page.\<close>

definition null_contents_loads :: "string \<Rightarrow> json option" where
  "null_contents_loads blob =
     (if blob = example_blob then Some (JObj [(''contents'', JNull)]) else None)"

definition one_watch_link :: "string \<Rightarrow> string list" where
  "one_watch_link html = (if html = example_page then [''/watch?v=xyz789''] else [])"

section \<open>Facts about the string operations\<close>

lemma split_on_nonempty: "split_on c s \<noteq> []"
  by (induction s) (auto split: list.splits)

lemma split_on_absent: "c \<notin> set s \<Longrightarrow> split_on c s = [s]"
  by (induction s) auto

lemma split_on_field: "c \<notin> set a \<Longrightarrow> split_on c (a @ c # b) = a # split_on c b"
  by (induction a) auto

lemma length_split_on: "length (split_on c s) = Suc (count_list s c)"
  by (induction s) (auto split: list.splits simp: split_on_nonempty)

lemma hd_split_on: "hd (split_on c s) = takeWhile (\<lambda>x. x \<noteq> c) s"
  by (induction s) (auto split: list.splits simp: split_on_nonempty)

lemma split_on_unfold:
  "c \<in> set s \<Longrightarrow> split_on c s = takeWhile (\<lambda>x. x \<noteq> c) s # split_on c (tl (dropWhile (\<lambda>x. x \<noteq> c) s))"
  by (induction s) (auto split: list.splits simp: split_on_nonempty)

lemma substring_of_sublist: "substring_of sub s = sublist sub s"
  by (induction s) (auto simp: sublist_Cons_right)

lemma first_containing_find:
  "first_containing h ps = (case find (substring_of h) ps of None \<Rightarrow> h | Some p \<Rightarrow> p)"
  by (induction ps) auto

lemma takeWhile_twice: "takeWhile P (takeWhile Q xs) = takeWhile (\<lambda>x. P x \<and> Q x) xs"
  by (induction xs) auto

lemma second_field:
  assumes "c \<in> set s"
  shows "split_on c s ! 1 = takeWhile (\<lambda>x. x \<noteq> c) (tl (dropWhile (\<lambda>x. x \<noteq> c) s))"
proof -
  have "split_on c s ! 1 = hd (split_on c (tl (dropWhile (\<lambda>x. x \<noteq> c) s)))"
    using assms by (simp add: split_on_unfold hd_conv_nth split_on_nonempty)
  then show ?thesis by (simp add: hd_split_on)
qed

section \<open>The proxy manager\<close>

subsection \<open>format\_proxy\_url\<close>

text \<open>
  C6. \<^verbatim>\<open>format_proxy_url\<close> passes every line with an \<open>@\<close> through with the scheme put in
  front; of the lines without \<open>@\<close>, four colon-separated fields \<open>ip:port:user:pw\<close> give the
  credentialed URL, two fields \<open>ip:port\<close> the bare URL, and every other number of fields
  (that is, of colons other than 3 or 1) fails with the invalid-format \<^verbatim>\<open>ProxyError\<close>.
  The three examples of the specification are evaluated as well.
\<close>

theorem format_proxy_url_forms:
  "(CHR ''@'' \<in> set l \<longrightarrow> format_proxy_url l = Inr (''http://'' @ l))
   \<and> (CHR ''@'' \<notin> set (ip @ port @ user @ pw) \<and> CHR '':'' \<notin> set (ip @ port @ user @ pw) \<longrightarrow>
        format_proxy_url (ip @ '':'' @ port @ '':'' @ user @ '':'' @ pw)
          = Inr (''http://'' @ user @ '':'' @ pw @ ''@'' @ ip @ '':'' @ port))
   \<and> (CHR ''@'' \<notin> set (ip @ port) \<and> CHR '':'' \<notin> set (ip @ port) \<longrightarrow>
        format_proxy_url (ip @ '':'' @ port) = Inr (''http://'' @ ip @ '':'' @ port))
   \<and> (CHR ''@'' \<notin> set l \<and> count_list l CHR '':'' \<noteq> 3 \<and> count_list l CHR '':'' \<noteq> 1 \<longrightarrow>
        format_proxy_url l = Inl (ProxyError (''Invalid proxy format: '' @ l)))
   \<and> format_proxy_url ''1.2.3.4:80:user:pw'' = Inr ''http://user:pw@1.2.3.4:80''
   \<and> format_proxy_url ''1.2.3.4:80'' = Inr ''http://1.2.3.4:80''
   \<and> format_proxy_url ''a:b:c'' = Inl (ProxyError ''Invalid proxy format: a:b:c'')"
proof (intro conjI impI)
  assume "CHR ''@'' \<in> set l"
  then show "format_proxy_url l = Inr (''http://'' @ l)"
    by (simp add: format_proxy_url_def)
next
  assume a: "CHR ''@'' \<notin> set (ip @ port @ user @ pw) \<and> CHR '':'' \<notin> set (ip @ port @ user @ pw)"
  then have "split_on CHR '':'' (ip @ '':'' @ port @ '':'' @ user @ '':'' @ pw) = [ip, port, user, pw]"
    by (simp add: split_on_field split_on_absent)
  with a show "format_proxy_url (ip @ '':'' @ port @ '':'' @ user @ '':'' @ pw)
          = Inr (''http://'' @ user @ '':'' @ pw @ ''@'' @ ip @ '':'' @ port)"
    by (simp add: format_proxy_url_def)
next
  assume a: "CHR ''@'' \<notin> set (ip @ port) \<and> CHR '':'' \<notin> set (ip @ port)"
  then have "split_on CHR '':'' (ip @ '':'' @ port) = [ip, port]"
    by (simp add: split_on_field split_on_absent)
  with a show "format_proxy_url (ip @ '':'' @ port) = Inr (''http://'' @ ip @ '':'' @ port)"
    by (simp add: format_proxy_url_def)
next
  assume a: "CHR ''@'' \<notin> set l \<and> count_list l CHR '':'' \<noteq> 3 \<and> count_list l CHR '':'' \<noteq> 1"
  then have "length (split_on CHR '':'' l) \<noteq> 4" "length (split_on CHR '':'' l) \<noteq> 2"
    by (simp_all add: length_split_on)
  with a show "format_proxy_url l = Inl (ProxyError (''Invalid proxy format: '' @ l))"
    by (auto simp: format_proxy_url_def split: list.splits)
qed (simp_all add: format_proxy_url_def)

theorem format_proxy_url_forms_witness:
  "CHR ''@'' \<in> set ''u:p@h:1'' \<and> format_proxy_url ''u:p@h:1'' = Inr ''http://u:p@h:1''
   \<and> CHR ''@'' \<notin> set (''h'' @ ''1'' @ ''u'' @ ''p'') \<and> CHR '':'' \<notin> set (''h'' @ ''1'' @ ''u'' @ ''p'')
   \<and> format_proxy_url ''h:1:u:p'' = Inr ''http://u:p@h:1''
   \<and> format_proxy_url ''h:1'' = Inr ''http://h:1''
   \<and> CHR ''@'' \<notin> set ''a:b:c:d:e'' \<and> count_list ''a:b:c:d:e'' CHR '':'' = 4
   \<and> format_proxy_url ''a:b:c:d:e'' = Inl (ProxyError ''Invalid proxy format: a:b:c:d:e'')"
  using format_proxy_url_forms [of "''u:p@h:1''" "''h''" "''1''" "''u''" "''p''"]
        format_proxy_url_forms [of "''a:b:c:d:e''" "''h''" "''1''" "''u''" "''p''"]
  by simp

subsection \<open>load\_proxies and get\_proxy\<close>

lemma load_proxies_table [simp]: "proxy_failures (snd (load_proxies file s)) = proxy_failures s"
  by (simp add: load_proxies_def Let_def split: option.splits)

lemma load_proxies_current:
  "current_proxies (snd (load_proxies file s)) =
     (case file of None \<Rightarrow> current_proxies s | Some lines \<Rightarrow> fst (load_proxies file s))"
  by (simp add: load_proxies_def Let_def split: option.splits)

lemma pick_in_set: "xs \<noteq> [] \<Longrightarrow> xs ! (r mod length xs) \<in> set xs"
  by simp

text \<open>
  C2. \<^verbatim>\<open>get_proxy\<close> starts with a reload of the file (the state it returns is the
  reloaded one, whose \<^verbatim>\<open>current_proxies\<close> is the loaded list whenever the file exists).
  An empty loaded list gives the no-proxies \<^verbatim>\<open>ProxyError\<close>. Otherwise, if some loaded
  record has fewer than 5 failures, the result is the formatted URL of a loaded record
  with fewer than 5 failures and the health table is untouched; if every loaded record
  has 5 or more, the health table is emptied and the result is the formatted URL of some
  loaded record.
\<close>

theorem get_proxy_selection:
  assumes "load_proxies file s = (proxies, s1)"
  shows "(proxies = [] \<longrightarrow> get_proxy file r s = (Inl (ProxyError ''No proxies available''), s1))
       \<and> (proxies \<noteq> [] \<and> (\<exists>p \<in> set proxies. get0 (proxy_failures s) p < 5) \<longrightarrow>
            (\<exists>p \<in> set proxies. get0 (proxy_failures s) p < 5
                \<and> get_proxy file r s = (format_proxy_url p, s1)))
       \<and> (proxies \<noteq> [] \<and> (\<forall>p \<in> set proxies. 5 \<le> get0 (proxy_failures s) p) \<longrightarrow>
            (\<exists>p \<in> set proxies.
                get_proxy file r s = (format_proxy_url p, s1\<lparr>proxy_failures := Map.empty\<rparr>)))
       \<and> (file \<noteq> None \<longrightarrow> current_proxies s1 = proxies)
       \<and> proxy_failures s1 = proxy_failures s"
proof (intro conjI impI)
  assume "proxies = []"
  with assms show "get_proxy file r s = (Inl (ProxyError ''No proxies available''), s1)"
    by (simp add: get_proxy_def)
next
  let ?w = "filter (\<lambda>p. get0 (proxy_failures s) p < max_failures) proxies"
  assume a: "proxies \<noteq> [] \<and> (\<exists>p \<in> set proxies. get0 (proxy_failures s) p < 5)"
  then have ne: "?w \<noteq> []"
    by (auto simp: max_failures_def filter_empty_conv)
  then have "?w ! (r mod length ?w) \<in> set ?w"
    by (rule pick_in_set)
  then have sel: "?w ! (r mod length ?w) \<in> set proxies"
      "get0 (proxy_failures s) (?w ! (r mod length ?w)) < 5"
    by (simp_all add: max_failures_def)
  have t: "proxy_failures s1 = proxy_failures s"
    using assms load_proxies_table [of "file" s] by simp
  have "get_proxy file r s = (format_proxy_url (?w ! (r mod length ?w)), s1)"
    using a ne assms t by (simp add: get_proxy_def Let_def)
  with sel show "\<exists>p \<in> set proxies. get0 (proxy_failures s) p < 5
                \<and> get_proxy file r s = (format_proxy_url p, s1)"
    by blast
next
  let ?w = "filter (\<lambda>p. get0 (proxy_failures s) p < max_failures) proxies"
  assume a: "proxies \<noteq> [] \<and> (\<forall>p \<in> set proxies. 5 \<le> get0 (proxy_failures s) p)"
  then have e: "?w = []"
    by (auto simp: max_failures_def filter_empty_conv)
  from a have sel: "proxies ! (r mod length proxies) \<in> set proxies"
    by simp
  have t: "proxy_failures s1 = proxy_failures s"
    using assms load_proxies_table [of "file" s] by simp
  have "get_proxy file r s
          = (format_proxy_url (proxies ! (r mod length proxies)), s1\<lparr>proxy_failures := Map.empty\<rparr>)"
    using a e assms t by (simp add: get_proxy_def Let_def)
  with sel show "\<exists>p \<in> set proxies.
                get_proxy file r s = (format_proxy_url p, s1\<lparr>proxy_failures := Map.empty\<rparr>)"
    by blast
next
  assume "file \<noteq> None"
  with assms load_proxies_current [of "file" s] show "current_proxies s1 = proxies"
    by auto
next
  from assms load_proxies_table [of "file" s] show "proxy_failures s1 = proxy_failures s" by simp
qed

theorem get_proxy_selection_witness:
  "get_proxy (Some [''1.2.3.4:80\<newline>'', ''5.6.7.8:81\<newline>'']) 0
      \<lparr>proxy_failures = [''1.2.3.4:80'' \<mapsto> 5], current_proxies = []\<rparr>
    = (Inr ''http://5.6.7.8:81'',
       \<lparr>proxy_failures = [''1.2.3.4:80'' \<mapsto> 5],
        current_proxies = [''1.2.3.4:80'', ''5.6.7.8:81'']\<rparr>)
   \<and> get_proxy (Some [''1.2.3.4:80\<newline>'']) 0
      \<lparr>proxy_failures = [''1.2.3.4:80'' \<mapsto> 5], current_proxies = []\<rparr>
    = (Inr ''http://1.2.3.4:80'',
       \<lparr>proxy_failures = Map.empty, current_proxies = [''1.2.3.4:80'']\<rparr>)
   \<and> get_proxy None 0 \<lparr>proxy_failures = Map.empty, current_proxies = [''1.2.3.4:80'']\<rparr>
    = (Inl (ProxyError ''No proxies available''),
       \<lparr>proxy_failures = Map.empty, current_proxies = [''1.2.3.4:80'']\<rparr>)"
proof -
  let ?s = "\<lparr>proxy_failures = [''1.2.3.4:80'' \<mapsto> 5], current_proxies = []\<rparr>"
  let ?fb = "Some [''1.2.3.4:80\<newline>'', ''5.6.7.8:81\<newline>'']"
  let ?sb = "\<lparr>proxy_failures = [''1.2.3.4:80'' \<mapsto> 5],
              current_proxies = [''1.2.3.4:80'', ''5.6.7.8:81'']\<rparr>"
  let ?fa = "Some [''1.2.3.4:80\<newline>'']"
  let ?sa = "\<lparr>proxy_failures = [''1.2.3.4:80'' \<mapsto> 5], current_proxies = [''1.2.3.4:80'']\<rparr>"
  let ?sz = "\<lparr>proxy_failures = Map.empty, current_proxies = [''1.2.3.4:80'']\<rparr>"
  have fmt: "format_proxy_url ''1.2.3.4:80'' = Inr ''http://1.2.3.4:80''"
      "format_proxy_url ''5.6.7.8:81'' = Inr ''http://5.6.7.8:81''"
    by (simp_all add: format_proxy_url_def)
  have l2: "load_proxies ?fb ?s = ([''1.2.3.4:80'', ''5.6.7.8:81''], ?sb)"
    by (simp add: load_proxies_def strip_def py_isspace_def Let_def)
  have l1: "load_proxies ?fa ?s = ([''1.2.3.4:80''], ?sa)"
    by (simp add: load_proxies_def strip_def py_isspace_def Let_def)
  have l0: "load_proxies None ?sz = ([], ?sz)"
    by (simp add: load_proxies_def)
  have "\<exists>p \<in> set [''1.2.3.4:80'', ''5.6.7.8:81'']. get0 (proxy_failures ?s) p < 5
            \<and> get_proxy ?fb 0 ?s = (format_proxy_url p, ?sb)"
    using get_proxy_selection [OF l2, of 0]
    by (simp add: get0_def)
  then have a: "get_proxy ?fb 0 ?s = (Inr ''http://5.6.7.8:81'', ?sb)"
    by (auto simp: get0_def fmt)
  have "\<exists>p \<in> set [''1.2.3.4:80''].
            get_proxy ?fa 0 ?s = (format_proxy_url p, ?sa\<lparr>proxy_failures := Map.empty\<rparr>)"
    using get_proxy_selection [OF l1, of 0]
    by (simp add: get0_def)
  then have b: "get_proxy ?fa 0 ?s = (Inr ''http://1.2.3.4:80'',
       \<lparr>proxy_failures = Map.empty, current_proxies = [''1.2.3.4:80'']\<rparr>)"
    by (simp add: fmt)
  have c: "get_proxy None 0 ?sz = (Inl (ProxyError ''No proxies available''), ?sz)"
    using get_proxy_selection [OF l0, of 0]
    by simp
  from a b c show ?thesis by simp
qed

subsection \<open>list\_proxies\<close>

text \<open>
  C9, as stated, fails: \<^verbatim>\<open>list_proxies\<close> reloads the file, and the reload assigns
  \<^verbatim>\<open>current_proxies\<close>. Listing a one-line file from the initial state changes the state.
\<close>

theorem list_proxies_changes_state:
  "snd (list_proxies (Some [''1.2.3.4:80'' @ [CHR 0x0A]]) init_pm) \<noteq> init_pm"
  by (simp add: list_proxies_def load_proxies_def init_pm_def strip_def py_isspace_def Let_def)

text \<open>
  C9, amended. \<^verbatim>\<open>list_proxies\<close> leaves the health table unchanged; it replaces
  \<^verbatim>\<open>current_proxies\<close> by the freshly loaded list when the file exists and leaves it alone
  when the file is missing; it reports the loaded records in order, each with its failure
  count, with status \<open>banned\<close> exactly when the count is 5 or more and \<open>active\<close> exactly
  when it is below 5.
\<close>

theorem list_proxies_view:
  "proxy_failures (snd (list_proxies file s)) = proxy_failures s
   \<and> current_proxies (snd (list_proxies file s))
       = (case file of None \<Rightarrow> current_proxies s | Some lines \<Rightarrow> fst (load_proxies file s))
   \<and> map info_proxy (fst (list_proxies file s)) = fst (load_proxies file s)
   \<and> (\<forall>i \<in> set (fst (list_proxies file s)).
         info_failures i = get0 (proxy_failures s) (info_proxy i)
       \<and> (info_status i = ''banned'' \<longleftrightarrow> 5 \<le> info_failures i)
       \<and> (info_status i = ''active'' \<longleftrightarrow> info_failures i < 5))"
  by (auto simp: list_proxies_def split_beta load_proxies_current max_failures_def comp_def)

theorem list_proxies_view_witness:
  "fst (list_proxies (Some [''1.2.3.4:80'' @ [CHR 0x0A], ''5.6.7.8:81'' @ [CHR 0x0A]])
      \<lparr>proxy_failures = [''1.2.3.4:80'' \<mapsto> 5], current_proxies = []\<rparr>)
    = [\<lparr>info_proxy = ''1.2.3.4:80'', info_failures = 5, info_status = ''banned''\<rparr>,
       \<lparr>info_proxy = ''5.6.7.8:81'', info_failures = 0, info_status = ''active''\<rparr>]"
  using list_proxies_view [of "Some [''1.2.3.4:80'' @ [CHR 0x0A], ''5.6.7.8:81'' @ [CHR 0x0A]]"
      "\<lparr>proxy_failures = [''1.2.3.4:80'' \<mapsto> 5], current_proxies = []\<rparr>"]
  by (simp add: list_proxies_def load_proxies_def strip_def py_isspace_def get0_def max_failures_def Let_def)

subsection \<open>record\_failure and clear\_failures\<close>

lemma storage_key_record_failure [simp]: "storage_key url (record_failure url' s) = storage_key url s"
  by (simp add: storage_key_def record_failure_def Let_def)

lemma record_failure_pow_current [simp]:
  "current_proxies ((record_failure url ^^ n) s) = current_proxies s"
  by (induction n) (simp_all add: record_failure_def Let_def)

lemma storage_key_cong: "current_proxies s = current_proxies s' \<Longrightarrow> storage_key url s = storage_key url s'"
  by (simp add: storage_key_def)

lemma record_failure_table:
  "proxy_failures (record_failure url s) =
     (proxy_failures s)(storage_key url s \<mapsto> get0 (proxy_failures s) (storage_key url s) + 1)"
  by (simp add: record_failure_def Let_def)

lemma record_failure_pow_table:
  "proxy_failures ((record_failure url ^^ n) s) =
     (if n = 0 then proxy_failures s
      else (proxy_failures s)(storage_key url s \<mapsto> get0 (proxy_failures s) (storage_key url s) + int n))"
proof (induction n)
  case 0
  then show ?case by simp
next
  case (Suc n)
  have k: "storage_key url ((record_failure url ^^ n) s) = storage_key url s"
    by (rule storage_key_cong) simp
  show ?case
  proof (cases "n = 0")
    case True
    then show ?thesis by (simp add: record_failure_table)
  next
    case False
    with Suc k show ?thesis
      by (auto simp: record_failure_table get0_def)
  qed
qed

lemma code_host_fragment:
  assumes "CHR ''@'' \<in> set url"
  shows "hd (split_on CHR '':'' (split_on CHR ''@'' url ! 1)) = host_fragment url"
proof -
  have "hd (split_on CHR '':'' (split_on CHR ''@'' url ! 1))
          = takeWhile (\<lambda>x. x \<noteq> CHR '':'') (split_on CHR ''@'' url ! 1)"
    by (rule hd_split_on)
  also have "\<dots> = takeWhile (\<lambda>x. x \<noteq> CHR '':'')
                     (takeWhile (\<lambda>x. x \<noteq> CHR ''@'') (tl (dropWhile (\<lambda>x. x \<noteq> CHR ''@'') url)))"
    using second_field [OF assms] by simp
  also have "\<dots> = host_fragment url"
    by (simp only: takeWhile_twice host_fragment_def)
  finally show ?thesis .
qed

lemma storage_key_fragment:
  assumes "CHR ''@'' \<in> set url"
  shows "storage_key url s = fragment_key url (current_proxies s)"
proof -
  have "storage_key url s = first_containing (host_fragment url) (current_proxies s)"
    using assms code_host_fragment [OF assms] by (simp only: storage_key_def if_True)
  then show ?thesis
    by (simp add: first_containing_find fragment_key_def)
qed

lemma remove_all_absent:
  "\<not> sublist pat s \<Longrightarrow> remove_all pat s = s"
proof (induction s)
  case Nil
  then show ?case by simp
next
  case (Cons c cs)
  then show ?case by (auto simp: sublist_Cons_right)
qed

lemma remove_all_prefix:
  "pat \<noteq> [] \<Longrightarrow> remove_all pat (pat @ s) = remove_all pat s"
  by (cases pat) simp_all

lemma storage_key_bare:
  assumes "CHR ''@'' \<notin> set p" and "\<not> sublist ''http://'' p"
  shows "storage_key (''http://'' @ p) s = p"
proof -
  have "remove_all ''http://'' (''http://'' @ p) = remove_all ''http://'' p"
    by (rule remove_all_prefix) simp
  with assms show ?thesis
    by (simp add: storage_key_def remove_all_absent)
qed

text \<open>
  Recording and clearing under one key. Whatever the number \<open>n\<close> of \<^verbatim>\<open>record_failure\<close>
  calls for a URL, a following \<^verbatim>\<open>clear_failures\<close> for that URL leaves the health table
  as it was before those calls with the entry under the URL's key removed, and clearing
  a URL whose key has no entry changes nothing. For the URL of a bare \<open>host:port\<close> line
  the key is the line itself; for a URL with an \<open>@\<close> it is whatever line the matching
  finds.
\<close>

lemma clear_after_record_same_key:
  "proxy_failures (clear_failures url ((record_failure url ^^ n) s))
     = (proxy_failures s)(storage_key url s := None)
   \<and> current_proxies (clear_failures url ((record_failure url ^^ n) s)) = current_proxies s
   \<and> get0 (proxy_failures (clear_failures url ((record_failure url ^^ n) s))) (storage_key url s) = 0
   \<and> (0 < n \<longrightarrow> proxy_failures ((record_failure url ^^ n) s) (storage_key url s)
                  = Some (get0 (proxy_failures s) (storage_key url s) + int n))
   \<and> (proxy_failures s (storage_key url s) = None \<longrightarrow> clear_failures url s = s)
   \<and> (CHR ''@'' \<notin> set p \<and> \<not> sublist ''http://'' p \<longrightarrow> storage_key (''http://'' @ p) s = p)"
proof -
  have k: "storage_key url ((record_failure url ^^ n) s) = storage_key url s"
    by (rule storage_key_cong) simp
  have "proxy_failures (clear_failures url ((record_failure url ^^ n) s))
     = (proxy_failures s)(storage_key url s := None)
   \<and> current_proxies (clear_failures url ((record_failure url ^^ n) s)) = current_proxies s
   \<and> get0 (proxy_failures (clear_failures url ((record_failure url ^^ n) s))) (storage_key url s) = 0
   \<and> (0 < n \<longrightarrow> proxy_failures ((record_failure url ^^ n) s) (storage_key url s)
                  = Some (get0 (proxy_failures s) (storage_key url s) + int n))
   \<and> (proxy_failures s (storage_key url s) = None \<longrightarrow> clear_failures url s = s)"
    using k by (auto simp: clear_failures_def Let_def record_failure_pow_table get0_def dom_def)
  moreover have "CHR ''@'' \<notin> set p \<and> \<not> sublist ''http://'' p \<longrightarrow> storage_key (''http://'' @ p) s = p"
    using storage_key_bare [of p s] by blast
  ultimately show ?thesis
    by blast
qed

lemma clear_after_record_example:
  "proxy_failures (clear_failures ''http://1.2.3.4:80''
       ((record_failure ''http://1.2.3.4:80'' ^^ 3) init_pm)) ''1.2.3.4:80'' = None
   \<and> proxy_failures ((record_failure ''http://1.2.3.4:80'' ^^ 3) init_pm) ''1.2.3.4:80'' = Some 3
   \<and> clear_failures ''http://1.2.3.4:80'' init_pm = init_pm"
proof -
  have k: "storage_key ''http://1.2.3.4:80'' init_pm = ''1.2.3.4:80''"
    by (simp add: storage_key_def)
  have e: "proxy_failures init_pm ''1.2.3.4:80'' = None"
    by (simp add: init_pm_def)
  show ?thesis
    using clear_after_record_same_key [of "''http://1.2.3.4:80''" 3 init_pm "''1.2.3.4:80''"]
    by (simp add: k e get0_def)
qed

text \<open>
  C8 at the pool of two proxies on one host. With 7 failures counted for the first line
  and 1 for the second, clearing the URL of the second proxy deletes the entry of the
  first and leaves the second proxy's own entry at 1. With 3 failures counted for the
  first line only, clearing the URL of the second proxy, which has no entry, empties the
  table.
\<close>

theorem clear_failures_clears_other_proxy:
  "format_proxy_url ''1.2.3.4:81:u2:p2'' = Inr ''http://u2:p2@1.2.3.4:81''
   \<and> proxy_failures (clear_failures ''http://u2:p2@1.2.3.4:81''
        \<lparr>proxy_failures = [''1.2.3.4:80:u1:p1'' \<mapsto> 7, ''1.2.3.4:81:u2:p2'' \<mapsto> 1],
         current_proxies = shared_host_pool\<rparr>) ''1.2.3.4:81:u2:p2'' = Some 1
   \<and> proxy_failures (clear_failures ''http://u2:p2@1.2.3.4:81''
        \<lparr>proxy_failures = [''1.2.3.4:80:u1:p1'' \<mapsto> 7, ''1.2.3.4:81:u2:p2'' \<mapsto> 1],
         current_proxies = shared_host_pool\<rparr>) ''1.2.3.4:80:u1:p1'' = None
   \<and> proxy_failures \<lparr>proxy_failures = [''1.2.3.4:80:u1:p1'' \<mapsto> 3],
         current_proxies = shared_host_pool\<rparr> ''1.2.3.4:81:u2:p2'' = None
   \<and> clear_failures ''http://u2:p2@1.2.3.4:81''
        \<lparr>proxy_failures = [''1.2.3.4:80:u1:p1'' \<mapsto> 3], current_proxies = shared_host_pool\<rparr>
       = \<lparr>proxy_failures = Map.empty, current_proxies = shared_host_pool\<rparr>"
proof -
  have f: "format_proxy_url ''1.2.3.4:81:u2:p2'' = Inr ''http://u2:p2@1.2.3.4:81''"
    by (simp add: format_proxy_url_def)
  have k: "\<And>t. storage_key ''http://u2:p2@1.2.3.4:81''
             \<lparr>proxy_failures = t, current_proxies = shared_host_pool\<rparr> = ''1.2.3.4:80:u1:p1''"
    by (simp add: storage_key_def shared_host_pool_def)
  have a: "proxy_failures (clear_failures ''http://u2:p2@1.2.3.4:81''
        \<lparr>proxy_failures = [''1.2.3.4:80:u1:p1'' \<mapsto> 7, ''1.2.3.4:81:u2:p2'' \<mapsto> 1],
         current_proxies = shared_host_pool\<rparr>) ''1.2.3.4:81:u2:p2'' = Some 1"
    "proxy_failures (clear_failures ''http://u2:p2@1.2.3.4:81''
        \<lparr>proxy_failures = [''1.2.3.4:80:u1:p1'' \<mapsto> 7, ''1.2.3.4:81:u2:p2'' \<mapsto> 1],
         current_proxies = shared_host_pool\<rparr>) ''1.2.3.4:80:u1:p1'' = None"
    by (simp_all add: clear_failures_def Let_def k dom_def)
  have b: "clear_failures ''http://u2:p2@1.2.3.4:81''
        \<lparr>proxy_failures = [''1.2.3.4:80:u1:p1'' \<mapsto> 3], current_proxies = shared_host_pool\<rparr>
       = \<lparr>proxy_failures = Map.empty, current_proxies = shared_host_pool\<rparr>"
    by (simp add: clear_failures_def Let_def k dom_def)
  from f a b show ?thesis by simp
qed

text \<open>For a URL with exactly one \<open>@\<close> the key is the one the description in words
  gives.\<close>

lemma no_second_at:
  "count_list url c = 1 \<Longrightarrow> c \<notin> set (tl (dropWhile (\<lambda>x. x \<noteq> c) url))"
proof (induction url)
  case Nil
  then show ?case by simp
next
  case (Cons x xs)
  then show ?case
    by (auto simp: count_list_0_iff split: if_splits)
qed

lemma takeWhile_weaken:
  "c \<notin> set xs \<Longrightarrow> takeWhile (\<lambda>x. P x \<and> x \<noteq> c) xs = takeWhile P xs"
  by (induction xs) auto

lemma storage_key_single_at:
  assumes "count_list url CHR ''@'' = 1"
  shows "storage_key url s = claimed_key url (current_proxies s)"
proof -
  from assms have m: "CHR ''@'' \<in> set url"
    by (metis count_list_0_iff zero_neq_one)
  from no_second_at [OF assms]
  have "host_fragment url
          = takeWhile (\<lambda>c. c \<noteq> CHR '':'') (tl (dropWhile (\<lambda>c. c \<noteq> CHR ''@'') url))"
    unfolding host_fragment_def by (rule takeWhile_weaken)
  then show ?thesis
    using storage_key_fragment [OF m, of s]
    by (simp add: fragment_key_def claimed_key_def Let_def cong: option.case_cong)
qed

text \<open>
  C10 at a pass-through line whose password contains an \<open>@\<close>. The code takes the text
  between the first and the second \<open>@\<close>, a piece of the password, where the host between
  the \<open>@\<close> and the next colon is meant; the failure is counted under another proxy's
  line, which happens to contain that piece, and the proxy's own line gets no entry.
\<close>

theorem password_at_sign_misattributed:
  "format_proxy_url ''user:p@ss@10.0.0.1:80'' = Inr ''http://user:p@ss@10.0.0.1:80''
   \<and> storage_key ''http://user:p@ss@10.0.0.1:80''
        \<lparr>proxy_failures = Map.empty,
         current_proxies = [''ss.example.com:80'', ''user:p@ss@10.0.0.1:80'']\<rparr>
       = ''ss.example.com:80''
   \<and> claimed_key ''http://user:p@ss@10.0.0.1:80''
        [''ss.example.com:80'', ''user:p@ss@10.0.0.1:80'']
       = ''user:p@ss@10.0.0.1:80''
   \<and> proxy_failures (record_failure ''http://user:p@ss@10.0.0.1:80''
        \<lparr>proxy_failures = Map.empty,
         current_proxies = [''ss.example.com:80'', ''user:p@ss@10.0.0.1:80'']\<rparr>)
        ''ss.example.com:80'' = Some 1
   \<and> proxy_failures (record_failure ''http://user:p@ss@10.0.0.1:80''
        \<lparr>proxy_failures = Map.empty,
         current_proxies = [''ss.example.com:80'', ''user:p@ss@10.0.0.1:80'']\<rparr>)
        ''user:p@ss@10.0.0.1:80'' = None"
proof -
  let ?s = "\<lparr>proxy_failures = Map.empty,
         current_proxies = [''ss.example.com:80'', ''user:p@ss@10.0.0.1:80'']\<rparr>"
  have k: "storage_key ''http://user:p@ss@10.0.0.1:80'' ?s = ''ss.example.com:80''"
    by (simp add: storage_key_def)
  have c: "claimed_key ''http://user:p@ss@10.0.0.1:80''
        [''ss.example.com:80'', ''user:p@ss@10.0.0.1:80''] = ''user:p@ss@10.0.0.1:80''"
    by (simp add: claimed_key_def)
  have f: "format_proxy_url ''user:p@ss@10.0.0.1:80'' = Inr ''http://user:p@ss@10.0.0.1:80''"
    by (simp add: format_proxy_url_def)
  have r: "proxy_failures (record_failure ''http://user:p@ss@10.0.0.1:80'' ?s)
        ''ss.example.com:80'' = Some 1"
     "proxy_failures (record_failure ''http://user:p@ss@10.0.0.1:80'' ?s)
        ''user:p@ss@10.0.0.1:80'' = None"
    by (simp_all add: record_failure_table k get0_def)
  from k c f r show ?thesis by simp
qed

text \<open>
  What the code computes for every URL with an \<open>@\<close>: the text after the first \<open>@\<close> up to
  the next colon or \<open>@\<close>, replaced by the first line of \<^verbatim>\<open>current_proxies\<close> that contains
  it, and kept when no line does. Two URLs with the same fragment address the same entry,
  that of the first matching line in load order.
\<close>

lemma storage_key_described:
  assumes "CHR ''@'' \<in> set url"
  shows "storage_key url s = fragment_key url (current_proxies s)
       \<and> record_failure url s
           = s\<lparr>proxy_failures := (proxy_failures s)
                 (fragment_key url (current_proxies s)
                    \<mapsto> get0 (proxy_failures s) (fragment_key url (current_proxies s)) + 1)\<rparr>
       \<and> clear_failures url s
           = s\<lparr>proxy_failures := (proxy_failures s)(fragment_key url (current_proxies s) := None)\<rparr>
       \<and> (\<forall>i < length (current_proxies s).
             sublist (host_fragment url) (current_proxies s ! i)
             \<and> (\<forall>j < i. \<not> sublist (host_fragment url) (current_proxies s ! j))
             \<longrightarrow> storage_key url s = current_proxies s ! i)
       \<and> ((\<forall>p \<in> set (current_proxies s). \<not> sublist (host_fragment url) p)
             \<longrightarrow> storage_key url s = host_fragment url)
       \<and> (CHR ''@'' \<in> set url' \<and> host_fragment url' = host_fragment url
             \<longrightarrow> storage_key url' s = storage_key url s)"
proof (intro conjI allI impI)
  show k: "storage_key url s = fragment_key url (current_proxies s)"
    using assms by (rule storage_key_fragment)
  show "record_failure url s
           = s\<lparr>proxy_failures := (proxy_failures s)
                 (fragment_key url (current_proxies s)
                    \<mapsto> get0 (proxy_failures s) (fragment_key url (current_proxies s)) + 1)\<rparr>"
    by (simp add: record_failure_def Let_def k)
  show "clear_failures url s
           = s\<lparr>proxy_failures := (proxy_failures s)(fragment_key url (current_proxies s) := None)\<rparr>"
    by (auto simp: clear_failures_def Let_def k dom_def fun_upd_idem)
next
  fix i
  assume "i < length (current_proxies s)"
    and "sublist (host_fragment url) (current_proxies s ! i)
             \<and> (\<forall>j < i. \<not> sublist (host_fragment url) (current_proxies s ! j))"
  then have "find (substring_of (host_fragment url)) (current_proxies s) = Some (current_proxies s ! i)"
    by (auto simp: find_Some_iff substring_of_sublist)
  then show "storage_key url s = current_proxies s ! i"
    using assms by (simp add: storage_key_fragment fragment_key_def)
next
  assume "\<forall>p \<in> set (current_proxies s). \<not> sublist (host_fragment url) p"
  then have "find (substring_of (host_fragment url)) (current_proxies s) = None"
    by (simp add: find_None_iff substring_of_sublist)
  then show "storage_key url s = host_fragment url"
    using assms by (simp add: storage_key_fragment fragment_key_def)
next
  assume "CHR ''@'' \<in> set url' \<and> host_fragment url' = host_fragment url"
  then show "storage_key url' s = storage_key url s"
    using assms by (simp add: storage_key_fragment fragment_key_def cong: option.case_cong)
qed

lemma storage_key_shared_host_example:
  "CHR ''@'' \<in> set ''http://u2:p2@1.2.3.4:81''
   \<and> storage_key ''http://u2:p2@1.2.3.4:81''
        \<lparr>proxy_failures = Map.empty, current_proxies = shared_host_pool\<rparr> = ''1.2.3.4:80:u1:p1''
   \<and> storage_key ''http://u1:p1@1.2.3.4:80''
        \<lparr>proxy_failures = Map.empty, current_proxies = shared_host_pool\<rparr> = ''1.2.3.4:80:u1:p1''"
  using storage_key_described [of "''http://u2:p2@1.2.3.4:81''"
          "\<lparr>proxy_failures = Map.empty, current_proxies = shared_host_pool\<rparr>"
          "''http://u1:p1@1.2.3.4:80''"]
  by (simp add: host_fragment_def fragment_key_def shared_host_pool_def)

text \<open>
  C5 at a pool of two proxies on one host. Five failures recorded for the URL of the
  second proxy are all counted under the line of the first; the second has no entry, and
  every following \<^verbatim>\<open>get_proxy\<close> returns the second proxy, with no reset of the table.
\<close>

theorem shared_host_never_excluded:
  "format_proxy_url ''1.2.3.4:81:u2:p2'' = Inr ''http://u2:p2@1.2.3.4:81''
   \<and> (record_failure ''http://u2:p2@1.2.3.4:81'' ^^ 5)
        \<lparr>proxy_failures = Map.empty, current_proxies = shared_host_pool\<rparr>
       = \<lparr>proxy_failures = [''1.2.3.4:80:u1:p1'' \<mapsto> 5], current_proxies = shared_host_pool\<rparr>
   \<and> (\<forall>r. get_proxy (Some [''1.2.3.4:80:u1:p1\<newline>'', ''1.2.3.4:81:u2:p2\<newline>'']) r
              \<lparr>proxy_failures = [''1.2.3.4:80:u1:p1'' \<mapsto> 5], current_proxies = shared_host_pool\<rparr>
            = (Inr ''http://u2:p2@1.2.3.4:81'',
               \<lparr>proxy_failures = [''1.2.3.4:80:u1:p1'' \<mapsto> 5],
                current_proxies = shared_host_pool\<rparr>))"
proof (intro conjI allI)
  let ?s = "\<lparr>proxy_failures = Map.empty, current_proxies = shared_host_pool\<rparr>"
  let ?t = "\<lparr>proxy_failures = [''1.2.3.4:80:u1:p1'' \<mapsto> 5], current_proxies = shared_host_pool\<rparr>"
  show fmt: "format_proxy_url ''1.2.3.4:81:u2:p2'' = Inr ''http://u2:p2@1.2.3.4:81''"
    by (simp add: format_proxy_url_def)
  have k: "storage_key ''http://u2:p2@1.2.3.4:81'' ?s = ''1.2.3.4:80:u1:p1''"
    by (simp add: storage_key_def shared_host_pool_def)
  have "proxy_failures ((record_failure ''http://u2:p2@1.2.3.4:81'' ^^ 5) ?s)
          = [''1.2.3.4:80:u1:p1'' \<mapsto> 5]"
    by (simp add: record_failure_pow_table k get0_def)
  then show "(record_failure ''http://u2:p2@1.2.3.4:81'' ^^ 5) ?s = ?t"
    by (intro pm_state.equality) simp_all
  fix r
  have l: "load_proxies (Some [''1.2.3.4:80:u1:p1\<newline>'', ''1.2.3.4:81:u2:p2\<newline>'']) ?t
             = (shared_host_pool, ?t)"
    by (simp add: load_proxies_def strip_def py_isspace_def Let_def shared_host_pool_def)
  have ne: "shared_host_pool \<noteq> []"
    by (simp add: shared_host_pool_def)
  have w: "filter (\<lambda>p. get0 [''1.2.3.4:80:u1:p1'' \<mapsto> 5] p < max_failures) shared_host_pool
             = [''1.2.3.4:81:u2:p2'']"
    by (simp add: shared_host_pool_def get0_def max_failures_def)
  show "get_proxy (Some [''1.2.3.4:80:u1:p1\<newline>'', ''1.2.3.4:81:u2:p2\<newline>'']) r ?t
          = (Inr ''http://u2:p2@1.2.3.4:81'', ?t)"
    unfolding get_proxy_def l by (simp add: w fmt Let_def ne)
qed

section \<open>The request\<close>

text \<open>
  C7. For a response with a 2xx status, \<^verbatim>\<open>_make_request\<close> raises the too-short error
  when the body has fewer than 1000 characters, and then the extractor is not called;
  with 1000 characters or more it returns the body, and the body is what the extractor
  is called with. The witness evaluates bodies of 999 and of 1000 characters.
\<close>

theorem make_request_length_check:
  assumes "sget url proxy = Response resp"
    and "200 \<le> status_code resp" and "status_code resp < 300"
  shows "(length (text_of resp) < 1000 \<longrightarrow>
            make_request sget url proxy
              = Inl (YouTubeScraperError ''Response too short, might be blocked'')
          \<and> fetch_and_extract json_loads anchor_hrefs sget url proxy
              = (Inl (YouTubeScraperError ''Response too short, might be blocked''),
                 [MakeRequest url proxy]))
       \<and> (1000 \<le> length (text_of resp) \<longrightarrow>
            make_request sget url proxy = Inr (text_of resp)
          \<and> fetch_and_extract json_loads anchor_hrefs sget url proxy
              = (extract_video_id json_loads anchor_hrefs (text_of resp),
                 [MakeRequest url proxy, ExtractVideoId (text_of resp)]))"
  using assms by (simp add: make_request_def fetch_and_extract_def)

theorem make_request_length_check_witness:
  "make_request (\<lambda>u p. Response \<lparr>status_code = 200, text_of = replicate 999 CHR ''a'', error_text = []\<rparr>) ''u'' ''p''
     = Inl (YouTubeScraperError ''Response too short, might be blocked'')
   \<and> make_request (\<lambda>u p. Response \<lparr>status_code = 200, text_of = replicate 1000 CHR ''a'', error_text = []\<rparr>) ''u'' ''p''
     = Inr (replicate 1000 CHR ''a'')"
  using make_request_length_check [of "\<lambda>u p. Response \<lparr>status_code = 200, text_of = replicate 999 CHR ''a'', error_text = []\<rparr>" "''u''" "''p''"
          "\<lparr>status_code = 200, text_of = replicate 999 CHR ''a'', error_text = []\<rparr>"] 
     make_request_length_check [of "\<lambda>u p. Response \<lparr>status_code = 200, text_of = replicate 1000 CHR ''a'', error_text = []\<rparr>" "''u''" "''p''"
          "\<lparr>status_code = 200, text_of = replicate 1000 CHR ''a'', error_text = []\<rparr>"]
  by simp

section \<open>The extractor\<close>

text \<open>The order of the three methods, and the second example of the specification for
  method 3.\<close>

lemma extract_video_id_order:
  "(re_search match_script html = Some g \<longrightarrow> extract_video_id L H html = Inr (JStr g))
   \<and> (re_search match_script html = None \<and> method2 L html = Inr (Some v) \<longrightarrow>
        extract_video_id L H html = Inr v)
   \<and> (re_search match_script html = None \<and> method2 L html = Inr None
        \<and> first_watch_link (H html) = Some w \<longrightarrow>
        extract_video_id L H html = Inr (JStr w))
   \<and> (re_search match_script html = None \<and> method2 L html = Inr None
        \<and> first_watch_link (H html) = None \<longrightarrow>
        extract_video_id L H html
          = Inl (VideoNotFoundError ''Could not find any video IDs in the response''))
   \<and> (re_search match_script html = None \<and> method2 L html = Inl e \<longrightarrow>
        extract_video_id L H html = Inl e)"
  by (simp add: extract_video_id_def)

lemma method2_soft_failures:
  "re_search match_data html = None \<Longrightarrow> method2 L html = Inr None"
  "re_search match_data html = Some blob \<Longrightarrow> L blob = None \<Longrightarrow> method2 L html = Inr None"
  "re_search match_data html = Some blob \<Longrightarrow> L blob = Some data \<Longrightarrow>
     walk_initial_data data = Inl KeyError \<or> walk_initial_data data = Inl TypeError \<Longrightarrow>
     method2 L html = Inr None"
  by (auto simp: method2_def)

lemma watch_link_example:
  "first_watch_link [''/watch?v=xyz789&list=foo''] = Some ''xyz789''"
  by (simp add: match_watch_def)

text \<open>
  C3 at a page whose initial data has \<^verbatim>\<open>null\<close> under \<^verbatim>\<open>contents\<close>. Method 1 finds
  nothing, method 2 finds the blob, and the walk raises \<^verbatim>\<open>AttributeError\<close>, which the
  handler of method 2 does not catch: the function raises it, although method 3 would
  find the identifier in the page's anchor.
\<close>

theorem method2_attribute_error_escapes:
  "re_search match_script example_page = None
   \<and> re_search match_data example_page = Some example_blob
   \<and> walk_initial_data (JObj [(''contents'', JNull)]) = Inl AttributeError
   \<and> null_contents_loads example_blob = Some (JObj [(''contents'', JNull)])
   \<and> first_watch_link (one_watch_link example_page) = Some ''xyz789''
   \<and> extract_video_id null_contents_loads one_watch_link example_page = Inl AttributeError"
proof -
  have m1: "re_search match_script example_page = None"
    by (simp add: example_page_def example_blob_def match_script_def script_prefix_def)
  have m2: "re_search match_data example_page = Some example_blob"
    by (simp add: example_page_def example_blob_def match_data_def)
  have w: "walk_initial_data (JObj [(''contents'', JNull)]) = Inl AttributeError"
    by (simp add: walk_initial_data_def bind_exn_def)
  have l: "first_watch_link (one_watch_link example_page) = Some ''xyz789''"
    unfolding one_watch_link_def by (simp add: match_watch_def)
  have j: "null_contents_loads example_blob = Some (JObj [(''contents'', JNull)])"
    by (simp add: null_contents_loads_def)
  have "method2 null_contents_loads example_page = Inl AttributeError"
    by (simp add: method2_def m2 w j)
  then have "extract_video_id null_contents_loads one_watch_link example_page
               = Inl AttributeError"
    by (simp add: extract_video_id_def m1)
  with m1 m2 w l j show ?thesis by simp
qed

text \<open>The exceptions that the extractor can raise.\<close>

lemma bind_exn_Inl:
  "bind_exn r f = Inl e \<Longrightarrow> r = Inl e \<or> (\<exists>v. r = Inr v \<and> f v = Inl e)"
  by (cases r) (simp_all add: bind_exn_def)

lemma py_get_raises: "py_get v k d = Inl e \<Longrightarrow> walk_exn e"
  by (cases v) auto

lemma py_iter_raises: "py_iter v = Inl e \<Longrightarrow> walk_exn e"
  by (cases v) auto

lemma py_in_raises: "py_in k v = Inl e \<Longrightarrow> walk_exn e"
  by (cases v) auto

lemma py_getitem_raises: "py_getitem v k = Inl e \<Longrightarrow> walk_exn e"
  by (cases v) (auto split: option.splits)

lemma scan_items_raises: "scan_items items = Inl e \<Longrightarrow> walk_exn e"
proof (induction items)
  case Nil
  then show ?case by simp
next
  case (Cons item items)
  then show ?case
    by (auto dest!: bind_exn_Inl dest: py_in_raises py_getitem_raises split: if_splits)
qed

lemma scan_contents_raises: "scan_contents cs = Inl e \<Longrightarrow> walk_exn e"
proof (induction cs)
  case Nil
  then show ?case by simp
next
  case (Cons content rest)
  then show ?case
    by (auto dest!: bind_exn_Inl dest: py_get_raises py_iter_raises scan_items_raises
             split: option.splits)
qed

lemma walk_initial_data_raises: "walk_initial_data data = Inl e \<Longrightarrow> walk_exn e"
  unfolding walk_initial_data_def
  by (auto dest!: bind_exn_Inl dest: py_get_raises py_iter_raises scan_contents_raises)

lemma method2_raises: "method2 L html = Inl e \<Longrightarrow> e = AttributeError"
proof -
  assume a: "method2 L html = Inl e"
  then have "walk_exn e \<and> \<not> caught_by_method2 e"
    by (auto simp: method2_def split: option.splits sum.splits if_splits
             dest: walk_initial_data_raises)
  then show ?thesis by (cases e) simp_all
qed

lemma extract_video_id_raises:
  "extract_video_id L H html = Inl e \<Longrightarrow>
     e = VideoNotFoundError ''Could not find any video IDs in the response'' \<or> e = AttributeError"
  by (auto simp: extract_video_id_def split: option.splits sum.splits dest: method2_raises)

section \<open>The retry loop\<close>

subsection \<open>One pass\<close>

lemma make_request_raises:
  "make_request sget url proxy = Inl e \<Longrightarrow> is_scraper_error e"
  by (auto simp: make_request_def split: http_result.splits if_splits)

lemma fetch_and_extract_cases:
  assumes "fetch_and_extract L H sget url proxy = (r, cs)"
  shows "(\<exists>e. r = Inl e \<and> is_scraper_error e \<and> cs = [MakeRequest url proxy]
              \<and> make_request sget url proxy = Inl e)
       \<or> (\<exists>html. make_request sget url proxy = Inr html
              \<and> cs = [MakeRequest url proxy, ExtractVideoId html]
              \<and> r = extract_video_id L H html)"
  using assms
  by (auto simp: fetch_and_extract_def make_request_raises split: sum.splits)

lemma get_proxy_raises:
  assumes "get_proxy f r s = (Inl e, s')"
  shows "selection_error e"
proof -
  have fmt: "\<And>l. format_proxy_url l = Inl e \<Longrightarrow> e = ProxyError (''Invalid proxy format: '' @ l)"
    by (auto simp: format_proxy_url_def split: if_splits list.splits)
  from assms show ?thesis
    by (auto simp: get_proxy_def Let_def split_beta split: if_splits dest: fmt)
qed

lemma clear_failures_entry:
  "proxy_failures (clear_failures u s) (storage_key u (clear_failures u s)) = None"
proof -
  have "storage_key u (clear_failures u s) = storage_key u s"
    by (simp add: storage_key_def clear_failures_def Let_def)
  then show ?thesis
    by (auto simp: clear_failures_def Let_def dom_def)
qed

lemma loop_exhausted:
  "\<not> a < max_attempts \<Longrightarrow>
   retry_loop L H env url a le st
     = (Inl (YouTubeScraperError (''Max retry attempts reached: '' @ str_last le)), st)"
  by (simp add: retry_loop.simps [of L H env url a le st])

lemma loop_proxy_error:
  "a < max_attempts \<Longrightarrow>
   get_proxy (proxy_file (env a)) (draw (env a)) (pm st) = (Inl e, pm1) \<Longrightarrow>
   retry_loop L H env url a le st = (Inl e, \<lparr>pm = pm1, calls = calls st @ [GetProxy]\<rparr>)"
  by (simp add: retry_loop.simps [of L H env url a le st])

lemma loop_success:
  "a < max_attempts \<Longrightarrow>
   get_proxy (proxy_file (env a)) (draw (env a)) (pm st) = (Inr proxy, pm1) \<Longrightarrow>
   fetch_and_extract L H (session_get (env a)) url proxy = (Inr vid, cs) \<Longrightarrow>
   retry_loop L H env url a le st
     = (Inr vid, \<lparr>pm = clear_failures proxy pm1,
                  calls = calls st @ [GetProxy] @ cs @ [ClearFailures proxy]\<rparr>)"
  by (simp add: retry_loop.simps [of L H env url a le st])

lemma loop_uncaught:
  "a < max_attempts \<Longrightarrow>
   get_proxy (proxy_file (env a)) (draw (env a)) (pm st) = (Inr proxy, pm1) \<Longrightarrow>
   fetch_and_extract L H (session_get (env a)) url proxy = (Inl e, cs) \<Longrightarrow>
   \<not> is_scraper_error e \<Longrightarrow>
   retry_loop L H env url a le st
     = (Inl e, \<lparr>pm = pm1, calls = calls st @ [GetProxy] @ cs\<rparr>)"
  by (simp add: retry_loop.simps [of L H env url a le st])

lemma loop_retry:
  "a < max_attempts \<Longrightarrow>
   get_proxy (proxy_file (env a)) (draw (env a)) (pm st) = (Inr proxy, pm1) \<Longrightarrow>
   fetch_and_extract L H (session_get (env a)) url proxy = (Inl e, cs) \<Longrightarrow>
   is_scraper_error e \<Longrightarrow>
   retry_loop L H env url a le st
     = retry_loop L H env url (a + 1) (Some e)
         \<lparr>pm = record_failure proxy pm1,
          calls = calls st @ [GetProxy] @ cs @ [Caught e, RecordFailure proxy]
                  @ (if a + 1 < max_attempts then [Sleep] else [])\<rparr>"
  by (simp add: retry_loop.simps [of L H env url a le st])

lemma selection_error_cases:
  "selection_error e \<Longrightarrow>
     e = ProxyError ''No proxies available''
     \<or> (\<exists>l. e = ProxyError (''Invalid proxy format: '' @ l))"
  by (cases e) (auto elim: prefixE)

subsection \<open>The log of a run\<close>

lemma failed_passes_Nil [simp]: "failed_passes url [] = []"
  by (simp add: failed_passes_def)

lemma failed_passes_Cons:
  "failed_passes url (x # ps) = failed_pass url x @ [Sleep] @ failed_passes url ps"
  by (simp add: failed_passes_def)

lemma retry_loop_shape:
  assumes "retry_loop L H env url a le st = (res, st')" and "a < max_attempts"
  shows "\<exists>ps en. calls st' = calls st @ failed_passes url ps @ final_events url en
            \<and> res = final_result en
            \<and> list_all (attempt_failed L H) ps
            \<and> a + length ps < max_attempts
            \<and> ending_ok L H (a + length ps) en
            \<and> (\<exists>sn pmn. replay L H env url a (pm st) ps = Some sn
                  \<and> get_proxy (proxy_file (env (a + length ps))) (draw (env (a + length ps))) sn = (used_proxy en, pmn)
                  \<and> pm st' = final_pm en pmn)"
  using assms
proof (induction "max_attempts - a" arbitrary: a le st)
  case 0
  then show ?case by simp
next
  case (Suc n)
  note run = \<open>retry_loop L H env url a le st = (res, st')\<close>
  note lt = \<open>a < max_attempts\<close>
  obtain gp pm1 where g: "get_proxy (proxy_file (env a)) (draw (env a)) (pm st) = (gp, pm1)"
    by fastforce
  show ?case
  proof (cases gp)
    case (Inl e)
    with g lt run have r: "res = Inl e" "calls st' = calls st @ [GetProxy]" "pm st' = pm1"
      by (auto simp: loop_proxy_error)
    from g Inl have "selection_error e"
      by (auto dest: get_proxy_raises)
    with r lt have "calls st' = calls st @ failed_passes url [] @ final_events url (ProxyFailed e)
        \<and> res = final_result (ProxyFailed e)
        \<and> list_all (attempt_failed L H) []
        \<and> a + length ([] :: failed_attempt list) < max_attempts
        \<and> ending_ok L H (a + length ([] :: failed_attempt list)) (ProxyFailed e)
        \<and> replay L H env url a (pm st) [] = Some (pm st)
        \<and> get_proxy (proxy_file (env (a + length ([] :: failed_attempt list))))
              (draw (env (a + length ([] :: failed_attempt list)))) (pm st)
            = (used_proxy (ProxyFailed e), pm1)
        \<and> pm st' = final_pm (ProxyFailed e) pm1"
      using g Inl by simp
    then show ?thesis by blast
  next
    case (Inr proxy)
    with g have g': "get_proxy (proxy_file (env a)) (draw (env a)) (pm st) = (Inr proxy, pm1)"
      by simp
    obtain r cs where f: "fetch_and_extract L H (session_get (env a)) url proxy = (r, cs)"
      by fastforce
    have retry: ?thesis
      if e: "r = Inl e" "is_scraper_error e"
        and cs: "[GetProxy] @ cs @ [Caught e, RecordFailure proxy] = failed_pass url (proxy, page, e)"
        and ok: "attempt_failed L H (proxy, page, e)"
      for e page
    proof (cases "a + 1 < max_attempts")
      case True
      let ?st2 = "\<lparr>pm = record_failure proxy pm1,
                   calls = calls st @ [GetProxy] @ cs @ [Caught e, RecordFailure proxy]
                           @ (if a + 1 < max_attempts then [Sleep] else [])\<rparr>"
      from lt g' f e run have run2: "retry_loop L H env url (a + 1) (Some e) ?st2 = (res, st')"
        by (simp add: loop_retry)
      from Suc.hyps(2) have n: "n = max_attempts - (a + 1)" by simp
      from Suc.hyps(1) [OF n run2 True]
      obtain ps en sn pmn where
        sh: "calls st' = calls ?st2 @ failed_passes url ps @ final_events url en"
          "res = final_result en" "list_all (attempt_failed L H) ps"
          "a + 1 + length ps < max_attempts" "ending_ok L H (a + 1 + length ps) en"
          "replay L H env url (a + 1) (pm ?st2) ps = Some sn"
          "get_proxy (proxy_file (env (a + 1 + length ps))) (draw (env (a + 1 + length ps))) sn
             = (used_proxy en, pmn)"
          "pm st' = final_pm en pmn"
        by blast
      from sh(1) True cs
      have "calls st' = calls st @ failed_passes url ((proxy, page, e) # ps) @ final_events url en"
        by (simp add: failed_passes_Cons)
      moreover from sh(3) ok have "list_all (attempt_failed L H) ((proxy, page, e) # ps)"
        by simp
      moreover from sh(4) have "a + length ((proxy, page, e) # ps) < max_attempts"
        by simp
      moreover from sh(5) have "ending_ok L H (a + length ((proxy, page, e) # ps)) en"
        by simp
      moreover from sh(6) g' f e cs
      have "replay L H env url a (pm st) ((proxy, page, e) # ps) = Some sn"
        by simp
      moreover from sh(7)
      have "get_proxy (proxy_file (env (a + length ((proxy, page, e) # ps))))
              (draw (env (a + length ((proxy, page, e) # ps)))) sn = (used_proxy en, pmn)"
        by simp
      ultimately show ?thesis
        using sh(2) sh(8) by blast
    next
      case False
      let ?st2 = "\<lparr>pm = record_failure proxy pm1,
                   calls = calls st @ [GetProxy] @ cs @ [Caught e, RecordFailure proxy]
                           @ (if a + 1 < max_attempts then [Sleep] else [])\<rparr>"
      from lt g' f e run have "retry_loop L H env url (a + 1) (Some e) ?st2 = (res, st')"
        by (simp add: loop_retry)
      with False have r: "res = Inl (YouTubeScraperError (''Max retry attempts reached: '' @ str_exn e))"
          "st' = ?st2"
        by (simp_all add: loop_exhausted)
      from False lt have s: "Suc a = max_attempts" by simp
      from r False cs
      have "calls st' = calls st @ failed_passes url [] @ final_events url (Exhausted (proxy, page, e))"
        by simp
      moreover from r have "res = final_result (Exhausted (proxy, page, e))"
        by simp
      moreover from ok s have "ending_ok L H (a + length ([] :: failed_attempt list)) (Exhausted (proxy, page, e))"
        by simp
      moreover from lt have "a + length ([] :: failed_attempt list) < max_attempts"
        by simp
      moreover have "list_all (attempt_failed L H) []" by simp
      moreover have "replay L H env url a (pm st) [] = Some (pm st)" by simp
      moreover from g'
      have "get_proxy (proxy_file (env (a + length ([] :: failed_attempt list))))
              (draw (env (a + length ([] :: failed_attempt list)))) (pm st)
            = (used_proxy (Exhausted (proxy, page, e)), pm1)"
        by simp
      moreover from r have "pm st' = final_pm (Exhausted (proxy, page, e)) pm1"
        by simp
      ultimately show ?thesis
        by blast
    qed
    from fetch_and_extract_cases [OF f] show ?thesis
    proof (elim disjE exE conjE)
      fix e
      assume "r = Inl e" "is_scraper_error e" "cs = [MakeRequest url proxy]"
      then show ?thesis
        by (intro retry [of e None]) (simp_all add: failed_pass_def attempt_failed_def)
    next
      fix html
      assume m: "make_request (session_get (env a)) url proxy = Inr html"
        and cs: "cs = [MakeRequest url proxy, ExtractVideoId html]"
        and r: "r = extract_video_id L H html"
      show ?thesis
      proof (cases r)
        case (Inr vid)
        with lt g' f run have res: "res = Inr vid" "pm st' = clear_failures proxy pm1"
            "calls st' = calls st @ [GetProxy] @ cs @ [ClearFailures proxy]"
          by (auto simp: loop_success)
        from res cs Inr r lt
        have "calls st' = calls st @ failed_passes url [] @ final_events url (Succeeded proxy html vid)
            \<and> res = final_result (Succeeded proxy html vid)
            \<and> list_all (attempt_failed L H) []
            \<and> a + length ([] :: failed_attempt list) < max_attempts
            \<and> ending_ok L H (a + length ([] :: failed_attempt list)) (Succeeded proxy html vid)
            \<and> replay L H env url a (pm st) [] = Some (pm st)
            \<and> get_proxy (proxy_file (env (a + length ([] :: failed_attempt list))))
                  (draw (env (a + length ([] :: failed_attempt list)))) (pm st)
                = (used_proxy (Succeeded proxy html vid), pm1)
            \<and> pm st' = final_pm (Succeeded proxy html vid) pm1"
          using g' by simp
        then show ?thesis by blast
      next
        case (Inl e)
        show ?thesis
        proof (cases "is_scraper_error e")
          case True
          with Inl cs r show ?thesis
            by (intro retry [of e "Some html"]) (simp_all add: failed_pass_def attempt_failed_def)
        next
          case False
          with Inl lt g' f run have res: "res = Inl e"
              "calls st' = calls st @ [GetProxy] @ cs" "pm st' = pm1"
            by (auto simp: loop_uncaught)
          from res cs Inl r lt False
          have "calls st' = calls st @ failed_passes url [] @ final_events url (Escaped proxy html e)
              \<and> res = final_result (Escaped proxy html e)
              \<and> list_all (attempt_failed L H) []
              \<and> a + length ([] :: failed_attempt list) < max_attempts
              \<and> ending_ok L H (a + length ([] :: failed_attempt list)) (Escaped proxy html e)
              \<and> replay L H env url a (pm st) [] = Some (pm st)
              \<and> get_proxy (proxy_file (env (a + length ([] :: failed_attempt list))))
                    (draw (env (a + length ([] :: failed_attempt list)))) (pm st)
                  = (used_proxy (Escaped proxy html e), pm1)
              \<and> pm st' = final_pm (Escaped proxy html e) pm1"
            using g' by simp
          then show ?thesis by blast
        qed
      qed
    qed
  qed
qed

lemma count_failed_pass:
  "count_list (failed_pass url x) GetProxy = 1"
  "length (filter is_request (failed_pass url x)) = 1"
  "length (filter is_extract (failed_pass url x)) \<le> 1"
  "length (filter is_caught (failed_pass url x)) = 1"
  by (auto simp: failed_pass_def split: prod.splits option.splits)

lemma count_failed_passes:
  "count_list (failed_passes url ps) GetProxy = length ps"
  "length (filter is_request (failed_passes url ps)) = length ps"
  "length (filter is_extract (failed_passes url ps)) \<le> length ps"
  "length (filter is_caught (failed_passes url ps)) = length ps"
proof (induction ps)
  case Nil
  {
    case 1 show ?case by simp
  next
    case 2 show ?case by simp
  next
    case 3 show ?case by simp
  next
    case 4 show ?case by simp
  }
next
  case (Cons x ps)
  {
    case 1 with Cons show ?case by (simp add: failed_passes_Cons count_failed_pass)
  next
    case 2 with Cons show ?case by (simp add: failed_passes_Cons count_failed_pass)
  next
    case 3
    have "length (filter is_extract (failed_pass url x)) \<le> 1"
      by (rule count_failed_pass)
    with Cons(3) show ?case by (simp add: failed_passes_Cons)
  next
    case 4 with Cons show ?case by (simp add: failed_passes_Cons count_failed_pass)
  }
qed

lemma count_final_events:
  "count_list (final_events url en) GetProxy = 1"
  "length (filter is_request (final_events url en)) \<le> 1"
  "length (filter is_extract (final_events url en)) \<le> 1"
  "length (filter is_caught (final_events url en)) = (if is_exhausted en then 1 else 0)"
  using count_failed_pass(3) [of url]
  by (cases en; simp add: count_failed_pass; fail)+

lemma get_first_video_id_shape:
  assumes "get_first_video_id L H env search_term s = (res, st')"
  shows "\<exists>ps en sn pmn.
              calls st' = failed_passes (search_url search_term) ps
                          @ final_events (search_url search_term) en
            \<and> res = final_result en
            \<and> list_all (attempt_failed L H) ps
            \<and> length ps < 10
            \<and> ending_ok L H (length ps) en
            \<and> replay L H env (search_url search_term) 0 s ps = Some sn
            \<and> get_proxy (proxy_file (env (length ps))) (draw (env (length ps))) sn
                = (used_proxy en, pmn)
            \<and> pm st' = final_pm en pmn"
proof -
  have "0 < max_attempts" by (simp add: max_attempts_def)
  from retry_loop_shape [OF assms [unfolded get_first_video_id_def] this]
  show ?thesis by (simp add: search_url_def max_attempts_def)
qed

subsection \<open>Concrete runs\<close>

lemma get_proxy_single:
  "fst (get_proxy (Some [''1.2.3.4:80\<newline>'']) r s) = Inr ''http://1.2.3.4:80''"
proof -
  have l: "load_proxies (Some [''1.2.3.4:80\<newline>'']) s
             = ([''1.2.3.4:80''], s\<lparr>current_proxies := [''1.2.3.4:80'']\<rparr>)"
    by (simp add: load_proxies_def strip_def py_isspace_def Let_def)
  have fmt: "format_proxy_url ''1.2.3.4:80'' = Inr ''http://1.2.3.4:80''"
    by (simp add: format_proxy_url_def)
  show ?thesis
    unfolding get_proxy_def l by (simp add: Let_def fmt)
qed

lemma fetch_refused:
  "fetch_and_extract L H refused url proxy
     = (Inl (YouTubeScraperError ''Request failed: connection refused''), [MakeRequest url proxy])"
  by (simp add: fetch_and_extract_def make_request_def refused_def)

lemma refusing_loop:
  assumes "a \<le> max_attempts"
  shows "fst (retry_loop L H refusing_world url a le st)
           = Inl (YouTubeScraperError (''Max retry attempts reached: ''
                    @ (if a = max_attempts then str_last le
                       else ''Request failed: connection refused'')))
       \<and> length (filter is_caught (calls (snd (retry_loop L H refusing_world url a le st))))
           = length (filter is_caught (calls st)) + (max_attempts - a)"
  using assms
proof (induction "max_attempts - a" arbitrary: a le st)
  case 0
  then show ?case by (simp add: loop_exhausted)
next
  case (Suc n)
  then have lt: "a < max_attempts" by simp
  let ?e = "YouTubeScraperError ''Request failed: connection refused''"
  obtain pm1 where g: "get_proxy (proxy_file (refusing_world a)) (draw (refusing_world a)) (pm st)
                         = (Inr ''http://1.2.3.4:80'', pm1)"
    using get_proxy_single [of 0 "pm st"]
    by (cases "get_proxy (Some [''1.2.3.4:80\<newline>'']) 0 (pm st)") (simp add: refusing_world_def)
  have f: "fetch_and_extract L H (session_get (refusing_world a)) url ''http://1.2.3.4:80''
             = (Inl ?e, [MakeRequest url ''http://1.2.3.4:80''])"
    by (simp add: refusing_world_def fetch_refused)
  have e: "is_scraper_error ?e" by simp
  note step = loop_retry [where env = refusing_world and a = a and st = st and L = L and H = H
      and url = url and le = le, OF lt g f e]
  from Suc.hyps(2) have n: "n = max_attempts - (a + 1)" by simp
  from lt have le': "a + 1 \<le> max_attempts" by simp
  let ?st2 = "\<lparr>pm = record_failure ''http://1.2.3.4:80'' pm1,
               calls = calls st @ [GetProxy] @ [MakeRequest url ''http://1.2.3.4:80'']
                       @ [Caught ?e, RecordFailure ''http://1.2.3.4:80'']
                       @ (if a + 1 < max_attempts then [Sleep] else [])\<rparr>"
  from Suc.hyps(1) [OF n le', of "Some ?e" ?st2]
  have r: "fst (retry_loop L H refusing_world url (a + 1) (Some ?e) ?st2)
           = Inl (YouTubeScraperError (''Max retry attempts reached: ''
                    @ (if a + 1 = max_attempts then str_last (Some ?e)
                       else ''Request failed: connection refused'')))"
      "length (filter is_caught (calls (snd (retry_loop L H refusing_world url (a + 1) (Some ?e) ?st2))))
           = length (filter is_caught (calls ?st2)) + (max_attempts - (a + 1))"
    by blast+
  have c: "length (filter is_caught (calls ?st2)) = length (filter is_caught (calls st)) + 1"
    by simp
  from r(1) have r1: "fst (retry_loop L H refusing_world url a le st)
           = Inl (YouTubeScraperError
                    ''Max retry attempts reached: Request failed: connection refused'')"
    unfolding step by (simp split: if_splits)
  from r(2) c lt
  have r2: "length (filter is_caught (calls (snd (retry_loop L H refusing_world url a le st))))
           = length (filter is_caught (calls st)) + (max_attempts - a)"
    unfolding step by simp
  from r1 r2 lt show ?case by simp
qed

lemma extract_result_page: "extract_video_id L H result_page = Inr (JStr ''abc123'')"
proof -
  have "match_script result_page = Some ''abc123''"
    by (simp add: match_script_def result_page_def script_prefix_def)
  then have "re_search match_script result_page = Some ''abc123''"
    by (simp add: result_page_def script_prefix_def)
  then show ?thesis
    by (simp add: extract_video_id_def)
qed

lemma fetch_serving:
  "fetch_and_extract L H serving url proxy
     = (Inr (JStr ''abc123''), [MakeRequest url proxy, ExtractVideoId result_page])"
proof -
  have "1000 \<le> length result_page"
    by (simp add: result_page_def)
  then have "make_request serving url proxy = Inr result_page"
    by (simp add: make_request_def serving_def)
  then show ?thesis
    by (simp add: fetch_and_extract_def extract_result_page)
qed

lemma serving_run:
  "fst (get_first_video_id L H serving_world search_term init_pm) = Inr (JStr ''abc123'')"
proof -
  let ?st = "\<lparr>pm = init_pm, calls = []\<rparr>"
  obtain pm1 where g: "get_proxy (proxy_file (serving_world 0)) (draw (serving_world 0)) (pm ?st)
                         = (Inr ''http://1.2.3.4:80'', pm1)"
    using get_proxy_single [of 0 init_pm]
    by (cases "get_proxy (Some [''1.2.3.4:80\<newline>'']) 0 init_pm") (simp add: serving_world_def)
  have f: "fetch_and_extract L H (session_get (serving_world 0)) (search_url search_term)
             ''http://1.2.3.4:80''
           = (Inr (JStr ''abc123''),
              [MakeRequest (search_url search_term) ''http://1.2.3.4:80'', ExtractVideoId result_page])"
    by (simp add: serving_world_def fetch_serving)
  have lt: "0 < max_attempts" by (simp add: max_attempts_def)
  from loop_success [where env = serving_world and a = 0 and st = ?st and L = L and H = H
      and url = "search_url search_term" and le = None, OF lt g f]
  show ?thesis
    by (simp add: get_first_video_id_def search_url_def)
qed

subsection \<open>Concrete runs, continued\<close>

lemma one_line_load:
  "load_proxies (Some [''1.2.3.4:80\<newline>'']) s = ([''1.2.3.4:80''], s\<lparr>current_proxies := [''1.2.3.4:80'']\<rparr>)"
  by (simp add: load_proxies_def strip_def py_isspace_def Let_def)

lemma format_bare: "format_proxy_url ''1.2.3.4:80'' = Inr ''http://1.2.3.4:80''"
  by (simp add: format_proxy_url_def)

lemma get_proxy_fresh:
  "get_proxy (Some [''1.2.3.4:80\<newline>'']) 0 init_pm
     = (Inr ''http://1.2.3.4:80'', \<lparr>proxy_failures = Map.empty, current_proxies = [''1.2.3.4:80'']\<rparr>)"
  unfolding get_proxy_def one_line_load
  by (simp add: Let_def format_bare init_pm_def get0_def max_failures_def)

lemma record_failure_bare:
  "record_failure ''http://1.2.3.4:80'' \<lparr>proxy_failures = Map.empty, current_proxies = [''1.2.3.4:80'']\<rparr>
     = \<lparr>proxy_failures = [''1.2.3.4:80'' \<mapsto> 1], current_proxies = [''1.2.3.4:80'']\<rparr>"
proof -
  have "storage_key ''http://1.2.3.4:80'' \<lparr>proxy_failures = Map.empty, current_proxies = [''1.2.3.4:80'']\<rparr>
          = ''1.2.3.4:80''"
    by (simp add: storage_key_def)
  then show ?thesis
    by (simp add: record_failure_def Let_def get0_def)
qed

lemma vanishing_run:
  "get_first_video_id no_loads no_hrefs vanishing_world ''cats'' init_pm
     = (Inl (ProxyError ''No proxies available''),
        \<lparr>pm = \<lparr>proxy_failures = [''1.2.3.4:80'' \<mapsto> 1], current_proxies = [''1.2.3.4:80'']\<rparr>,
         calls = [GetProxy, MakeRequest (search_url ''cats'') ''http://1.2.3.4:80'',
                  Caught (YouTubeScraperError ''Request failed: connection refused''),
                  RecordFailure ''http://1.2.3.4:80'', Sleep, GetProxy]\<rparr>)"
proof -
  let ?u = "search_url ''cats''"
  let ?st = "\<lparr>pm = init_pm, calls = []\<rparr>"
  let ?e = "YouTubeScraperError ''Request failed: connection refused''"
  let ?pm1 = "\<lparr>proxy_failures = Map.empty, current_proxies = [''1.2.3.4:80'']\<rparr>"
  let ?pm2 = "\<lparr>proxy_failures = [''1.2.3.4:80'' \<mapsto> 1], current_proxies = [''1.2.3.4:80'']\<rparr>"
  have lt: "0 < max_attempts" "1 < max_attempts" by (simp_all add: max_attempts_def)
  have g: "get_proxy (proxy_file (vanishing_world 0)) (draw (vanishing_world 0)) (pm ?st)
             = (Inr ''http://1.2.3.4:80'', ?pm1)"
    by (simp add: vanishing_world_def get_proxy_fresh)
  have f: "fetch_and_extract no_loads no_hrefs (session_get (vanishing_world 0)) ?u ''http://1.2.3.4:80''
             = (Inl ?e, [MakeRequest ?u ''http://1.2.3.4:80''])"
    by (simp add: vanishing_world_def fetch_refused)
  have e: "is_scraper_error ?e" by simp
  let ?st2 = "\<lparr>pm = ?pm2,
               calls = [GetProxy, MakeRequest ?u ''http://1.2.3.4:80'', Caught ?e,
                        RecordFailure ''http://1.2.3.4:80'', Sleep]\<rparr>"
  from loop_retry [where env = vanishing_world and a = 0 and st = ?st and L = no_loads
      and H = no_hrefs and url = ?u and le = None, OF lt(1) g f e]
  have step: "retry_loop no_loads no_hrefs vanishing_world ?u 0 None ?st
                = retry_loop no_loads no_hrefs vanishing_world ?u 1 (Some ?e) ?st2"
    by (simp add: record_failure_bare max_attempts_def)
  have g2: "get_proxy (proxy_file (vanishing_world 1)) (draw (vanishing_world 1)) (pm ?st2)
              = (Inl (ProxyError ''No proxies available''), ?pm2)"
    by (simp add: vanishing_world_def get_proxy_def load_proxies_def)
  from loop_proxy_error [where env = vanishing_world and a = 1 and st = ?st2 and L = no_loads
      and H = no_hrefs and url = ?u and le = "Some ?e", OF lt(2) g2]
  have "retry_loop no_loads no_hrefs vanishing_world ?u 1 (Some ?e) ?st2
          = (Inl (ProxyError ''No proxies available''),
             \<lparr>pm = ?pm2, calls = calls ?st2 @ [GetProxy]\<rparr>)"
    by simp
  with step show ?thesis
    by (simp add: get_first_video_id_def search_url_def)
qed

lemma clear_failures_no_entry:
  "clear_failures ''http://1.2.3.4:80'' \<lparr>proxy_failures = Map.empty, current_proxies = [''1.2.3.4:80'']\<rparr>
     = \<lparr>proxy_failures = Map.empty, current_proxies = [''1.2.3.4:80'']\<rparr>"
  by (simp add: clear_failures_def storage_key_def Let_def)

lemma fetch_redirected:
  "fetch_and_extract L H redirected url proxy
     = (Inr (JStr ''abc123''), [MakeRequest url proxy, ExtractVideoId result_page])"
proof -
  have "1000 \<le> length result_page"
    by (simp add: result_page_def)
  then have "make_request redirected url proxy = Inr result_page"
    by (simp add: make_request_def redirected_def)
  then show ?thesis
    by (simp add: fetch_and_extract_def extract_result_page)
qed

lemma redirect_run:
  "get_first_video_id no_loads no_hrefs redirect_world ''cats'' init_pm
     = (Inr (JStr ''abc123''),
        \<lparr>pm = \<lparr>proxy_failures = Map.empty, current_proxies = [''1.2.3.4:80'']\<rparr>,
         calls = [GetProxy, MakeRequest (search_url ''cats'') ''http://1.2.3.4:80'',
                  ExtractVideoId result_page, ClearFailures ''http://1.2.3.4:80'']\<rparr>)"
proof -
  let ?u = "search_url ''cats''"
  let ?st = "\<lparr>pm = init_pm, calls = []\<rparr>"
  let ?pm1 = "\<lparr>proxy_failures = Map.empty, current_proxies = [''1.2.3.4:80'']\<rparr>"
  have lt: "0 < max_attempts" by (simp add: max_attempts_def)
  have g: "get_proxy (proxy_file (redirect_world 0)) (draw (redirect_world 0)) (pm ?st)
             = (Inr ''http://1.2.3.4:80'', ?pm1)"
    by (simp add: redirect_world_def get_proxy_fresh)
  have f: "fetch_and_extract no_loads no_hrefs (session_get (redirect_world 0)) ?u ''http://1.2.3.4:80''
             = (Inr (JStr ''abc123''), [MakeRequest ?u ''http://1.2.3.4:80'', ExtractVideoId result_page])"
    by (simp add: redirect_world_def fetch_redirected)
  from loop_success [where env = redirect_world and a = 0 and st = ?st and L = no_loads
      and H = no_hrefs and url = ?u and le = None, OF lt g f]
  show ?thesis
    by (simp add: get_first_video_id_def search_url_def clear_failures_no_entry)
qed

lemma late_run:
  "get_first_video_id no_loads no_hrefs late_world ''cats'' init_pm
     = (Inr (JStr ''abc123''),
        \<lparr>pm = \<lparr>proxy_failures = Map.empty, current_proxies = [''1.2.3.4:80'']\<rparr>,
         calls = [GetProxy, MakeRequest (search_url ''cats'') ''http://1.2.3.4:80'',
                  Caught (YouTubeScraperError ''Request failed: connection refused''),
                  RecordFailure ''http://1.2.3.4:80'', Sleep,
                  GetProxy, MakeRequest (search_url ''cats'') ''http://1.2.3.4:80'',
                  ExtractVideoId result_page, ClearFailures ''http://1.2.3.4:80'']\<rparr>)"
proof -
  let ?u = "search_url ''cats''"
  let ?st = "\<lparr>pm = init_pm, calls = []\<rparr>"
  let ?e = "YouTubeScraperError ''Request failed: connection refused''"
  let ?pm1 = "\<lparr>proxy_failures = Map.empty, current_proxies = [''1.2.3.4:80'']\<rparr>"
  let ?pm2 = "\<lparr>proxy_failures = [''1.2.3.4:80'' \<mapsto> 1], current_proxies = [''1.2.3.4:80'']\<rparr>"
  have lt: "0 < max_attempts" "1 < max_attempts" by (simp_all add: max_attempts_def)
  have g: "get_proxy (proxy_file (late_world 0)) (draw (late_world 0)) (pm ?st)
             = (Inr ''http://1.2.3.4:80'', ?pm1)"
    by (simp add: late_world_def get_proxy_fresh)
  have f: "fetch_and_extract no_loads no_hrefs (session_get (late_world 0)) ?u ''http://1.2.3.4:80''
             = (Inl ?e, [MakeRequest ?u ''http://1.2.3.4:80''])"
    by (simp add: late_world_def fetch_refused)
  have e: "is_scraper_error ?e" by simp
  let ?st2 = "\<lparr>pm = ?pm2,
               calls = [GetProxy, MakeRequest ?u ''http://1.2.3.4:80'', Caught ?e,
                        RecordFailure ''http://1.2.3.4:80'', Sleep]\<rparr>"
  from loop_retry [where env = late_world and a = 0 and st = ?st and L = no_loads
      and H = no_hrefs and url = ?u and le = None, OF lt(1) g f e]
  have step: "retry_loop no_loads no_hrefs late_world ?u 0 None ?st
                = retry_loop no_loads no_hrefs late_world ?u 1 (Some ?e) ?st2"
    by (simp add: record_failure_bare max_attempts_def)
  have l: "load_proxies (Some [''1.2.3.4:80\<newline>'']) ?pm2 = ([''1.2.3.4:80''], ?pm2)"
    by (simp add: one_line_load)
  have "get_proxy (Some [''1.2.3.4:80\<newline>'']) 0 ?pm2 = (Inr ''http://1.2.3.4:80'', ?pm2)"
    unfolding get_proxy_def l
    by (simp add: Let_def format_bare get0_def max_failures_def)
  then have g2: "get_proxy (proxy_file (late_world 1)) (draw (late_world 1)) (pm ?st2)
              = (Inr ''http://1.2.3.4:80'', ?pm2)"
    by (simp add: late_world_def)
  have f2: "fetch_and_extract no_loads no_hrefs (session_get (late_world 1)) ?u ''http://1.2.3.4:80''
             = (Inr (JStr ''abc123''), [MakeRequest ?u ''http://1.2.3.4:80'', ExtractVideoId result_page])"
    by (simp add: late_world_def fetch_serving)
  have c: "clear_failures ''http://1.2.3.4:80'' ?pm2 = ?pm1"
    by (simp add: clear_failures_def storage_key_def Let_def)
  from loop_success [where env = late_world and a = 1 and st = ?st2 and L = no_loads
      and H = no_hrefs and url = ?u and le = "Some ?e", OF lt(2) g2 f2]
  have "retry_loop no_loads no_hrefs late_world ?u 1 (Some ?e) ?st2
          = (Inr (JStr ''abc123''),
             \<lparr>pm = ?pm1,
              calls = calls ?st2 @ [GetProxy, MakeRequest ?u ''http://1.2.3.4:80'',
                                    ExtractVideoId result_page, ClearFailures ''http://1.2.3.4:80'']\<rparr>)"
    by (simp add: c)
  with step show ?thesis
    by (simp add: get_first_video_id_def search_url_def)
qed

lemma shared_serving_run:
  "fst (get_first_video_id no_loads no_hrefs shared_serving_world ''cats'' counted_pm)
     = Inr (JStr ''abc123'')
   \<and> calls (snd (get_first_video_id no_loads no_hrefs shared_serving_world ''cats'' counted_pm))
     = [GetProxy, MakeRequest (search_url ''cats'') ''http://u2:p2@1.2.3.4:81'',
        ExtractVideoId result_page, ClearFailures ''http://u2:p2@1.2.3.4:81'']
   \<and> pm (snd (get_first_video_id no_loads no_hrefs shared_serving_world ''cats'' counted_pm))
     = clear_failures ''http://u2:p2@1.2.3.4:81'' (counted_pm\<lparr>current_proxies := shared_host_pool\<rparr>)"
proof -
  let ?u = "search_url ''cats''"
  let ?st = "\<lparr>pm = counted_pm, calls = []\<rparr>"
  let ?pm1 = "counted_pm\<lparr>current_proxies := shared_host_pool\<rparr>"
  have lt: "0 < max_attempts" by (simp add: max_attempts_def)
  have l: "load_proxies (Some [''1.2.3.4:80:u1:p1\<newline>'', ''1.2.3.4:81:u2:p2\<newline>'']) counted_pm
             = (shared_host_pool, ?pm1)"
    by (simp add: load_proxies_def strip_def py_isspace_def Let_def shared_host_pool_def)
  have ne: "shared_host_pool \<noteq> []" by (simp add: shared_host_pool_def)
  have w: "filter (\<lambda>p. get0 (proxy_failures counted_pm) p < max_failures) shared_host_pool
             = shared_host_pool"
    by (simp add: shared_host_pool_def counted_pm_def get0_def max_failures_def)
  have sel: "length shared_host_pool = 2" "shared_host_pool ! Suc 0 = ''1.2.3.4:81:u2:p2''"
    by (simp_all add: shared_host_pool_def)
  have fmt: "format_proxy_url ''1.2.3.4:81:u2:p2'' = Inr ''http://u2:p2@1.2.3.4:81''"
    by (simp add: format_proxy_url_def)
  have "get_proxy (Some [''1.2.3.4:80:u1:p1\<newline>'', ''1.2.3.4:81:u2:p2\<newline>'']) 1 counted_pm
          = (Inr ''http://u2:p2@1.2.3.4:81'', ?pm1)"
    unfolding get_proxy_def l by (simp add: Let_def w ne sel fmt)
  then have g: "get_proxy (proxy_file (shared_serving_world 0)) (draw (shared_serving_world 0)) (pm ?st)
             = (Inr ''http://u2:p2@1.2.3.4:81'', ?pm1)"
    by (simp add: shared_serving_world_def)
  have f: "fetch_and_extract no_loads no_hrefs (session_get (shared_serving_world 0)) ?u
             ''http://u2:p2@1.2.3.4:81''
           = (Inr (JStr ''abc123''),
              [MakeRequest ?u ''http://u2:p2@1.2.3.4:81'', ExtractVideoId result_page])"
    by (simp add: shared_serving_world_def fetch_serving)
  from loop_success [where env = shared_serving_world and a = 0 and st = ?st and L = no_loads
      and H = no_hrefs and url = ?u and le = None, OF lt g f]
  show ?thesis
    by (simp add: get_first_video_id_def search_url_def)
qed

lemma malformed_run:
  "fst (load_proxies (proxy_file (malformed_world 0)) init_pm) = [''a:b:c'']
   \<and> fst (get_first_video_id no_loads no_hrefs malformed_world ''cats'' init_pm)
       = Inl (ProxyError ''Invalid proxy format: a:b:c'')"
proof -
  let ?st = "\<lparr>pm = init_pm, calls = []\<rparr>"
  have l: "load_proxies (Some [''a:b:c\<newline>'']) init_pm
             = ([''a:b:c''], init_pm\<lparr>current_proxies := [''a:b:c'']\<rparr>)"
    by (simp add: load_proxies_def strip_def py_isspace_def Let_def)
  have fmt: "format_proxy_url ''a:b:c'' = Inl (ProxyError ''Invalid proxy format: a:b:c'')"
    by (simp add: format_proxy_url_def)
  have "fst (get_proxy (Some [''a:b:c\<newline>'']) 0 init_pm)
          = Inl (ProxyError ''Invalid proxy format: a:b:c'')"
    unfolding get_proxy_def l by (simp add: Let_def fmt)
  then obtain pm1 where
    g: "get_proxy (proxy_file (malformed_world 0)) (draw (malformed_world 0)) (pm ?st)
          = (Inl (ProxyError ''Invalid proxy format: a:b:c''), pm1)"
    by (cases "get_proxy (Some [''a:b:c\<newline>'']) 0 init_pm") (simp add: malformed_world_def)
  have lt: "0 < max_attempts" by (simp add: max_attempts_def)
  from loop_proxy_error [where env = malformed_world and a = 0 and st = ?st and L = no_loads
      and H = no_hrefs and url = "search_url ''cats''" and le = None, OF lt g]
  have "fst (get_first_video_id no_loads no_hrefs malformed_world ''cats'' init_pm)
          = Inl (ProxyError ''Invalid proxy format: a:b:c'')"
    by (simp add: get_first_video_id_def search_url_def)
  with l show ?thesis
    by (simp add: malformed_world_def)
qed

subsection \<open>The attempt budget\<close>

lemma extract_in_failed_passes:
  "ExtractVideoId h \<in> set (failed_passes u ps) \<Longrightarrow> list_all (attempt_failed L H) ps \<Longrightarrow>
     \<exists>e. extract_video_id L H h = Inl e"
proof (induction ps)
  case Nil
  then show ?case by simp
next
  case (Cons x ps)
  then show ?case
    by (auto simp: failed_passes_Cons failed_pass_def attempt_failed_def
             split: prod.splits option.splits)
qed

lemma extract_in_final_events:
  assumes "ExtractVideoId h \<in> set (final_events u en)" and "ending_ok L H n en"
    and "extract_video_id L H h = Inr vid"
  shows "final_result en = Inr vid"
  using assms
  by (cases en)
     (auto simp: failed_pass_def attempt_failed_def split: prod.splits option.splits)

text \<open>
  The budget and the two ways a run uses it up or ends early. In every run there are at
  most 10 proxy selections, requests, extractions and caught failures. If the run returns
  an identifier, its log is a sequence of failed passes followed by one pass whose
  extraction returned that identifier and by the call of \<^verbatim>\<open>clear_failures\<close> for the proxy
  of that pass, and nothing follows; conversely an extraction in the log that returns an
  identifier makes that identifier the result. Ten caught failures end the run with the
  max-retries error carrying the text of the tenth, and a run that ends with a scraper
  error has caught ten.
\<close>

lemma get_first_video_id_budget:
  assumes "get_first_video_id L H env search_term s = (res, st')"
  shows "count_list (calls st') GetProxy \<le> 10
       \<and> length (filter is_request (calls st')) \<le> 10
       \<and> length (filter is_extract (calls st')) \<le> 10
       \<and> length (filter is_caught (calls st')) \<le> 10
       \<and> (\<forall>vid. res = Inr vid \<longrightarrow>
            (\<exists>ps proxy html sn pmn.
                calls st' = failed_passes (search_url search_term) ps
                            @ [GetProxy, MakeRequest (search_url search_term) proxy,
                               ExtractVideoId html, ClearFailures proxy]
              \<and> list_all (attempt_failed L H) ps
              \<and> extract_video_id L H html = Inr vid
              \<and> replay L H env (search_url search_term) 0 s ps = Some sn
              \<and> get_proxy (proxy_file (env (length ps))) (draw (env (length ps))) sn
                  = (Inr proxy, pmn)
              \<and> pm st' = clear_failures proxy pmn))
       \<and> (\<forall>h vid. ExtractVideoId h \<in> set (calls st') \<and> extract_video_id L H h = Inr vid \<longrightarrow>
            res = Inr vid)
       \<and> (length (filter is_caught (calls st')) = 10 \<longrightarrow>
            (\<exists>ps a. calls st' = failed_passes (search_url search_term) ps
                               @ failed_pass (search_url search_term) a
              \<and> length ps = 9
              \<and> list_all (attempt_failed L H) (ps @ [a])
              \<and> res = Inl (YouTubeScraperError
                            (''Max retry attempts reached: '' @ str_exn (snd (snd a))))))
       \<and> ((\<exists>m. res = Inl (YouTubeScraperError m)) \<longrightarrow>
            length (filter is_caught (calls st')) = 10)"
proof -
  from get_first_video_id_shape [OF assms]
  obtain ps en sn pmn where
    log: "calls st' = failed_passes (search_url search_term) ps
                      @ final_events (search_url search_term) en"
    and res: "res = final_result en"
    and ps: "list_all (attempt_failed L H) ps" "length ps < 10"
    and en: "ending_ok L H (length ps) en"
    and rp: "replay L H env (search_url search_term) 0 s ps = Some sn"
    and gp: "get_proxy (proxy_file (env (length ps))) (draw (env (length ps))) sn
                = (used_proxy en, pmn)"
    and fp: "pm st' = final_pm en pmn"
    by blast
  let ?u = "search_url search_term"
  have c1: "count_list (calls st') GetProxy \<le> 10"
    using ps(2) by (simp add: log count_failed_passes count_final_events)
  have "length (filter is_request (calls st'))
          = length ps + length (filter is_request (final_events ?u en))"
    by (simp add: log count_failed_passes)
  with count_final_events(2) [of ?u en] ps(2)
  have c2: "length (filter is_request (calls st')) \<le> 10"
    by simp
  have "length (filter is_extract (calls st'))
          \<le> length ps + length (filter is_extract (final_events ?u en))"
    using count_failed_passes(3) [of ?u ps] by (simp add: log)
  with count_final_events(3) [of ?u en] ps(2)
  have c3: "length (filter is_extract (calls st')) \<le> 10"
    by simp
  have n: "length (filter is_caught (calls st')) = length ps + (if is_exhausted en then 1 else 0)"
    by (simp add: log count_failed_passes count_final_events)
  with ps(2) have c4: "length (filter is_caught (calls st')) \<le> 10"
    by simp
  have s: "\<exists>ps proxy html sn pmn.
                calls st' = failed_passes ?u ps
                            @ [GetProxy, MakeRequest ?u proxy,
                               ExtractVideoId html, ClearFailures proxy]
              \<and> list_all (attempt_failed L H) ps
              \<and> extract_video_id L H html = Inr vid
              \<and> replay L H env ?u 0 s ps = Some sn
              \<and> get_proxy (proxy_file (env (length ps))) (draw (env (length ps))) sn
                  = (Inr proxy, pmn)
              \<and> pm st' = clear_failures proxy pmn"
    if "res = Inr vid" for vid
  proof -
    from that res obtain proxy html where e: "en = Succeeded proxy html vid"
      by (cases en) simp_all
    with log ps(1) en rp gp fp
    have "calls st' = failed_passes ?u ps
                            @ [GetProxy, MakeRequest ?u proxy,
                               ExtractVideoId html, ClearFailures proxy]
              \<and> list_all (attempt_failed L H) ps
              \<and> extract_video_id L H html = Inr vid
              \<and> replay L H env ?u 0 s ps = Some sn
              \<and> get_proxy (proxy_file (env (length ps))) (draw (env (length ps))) sn
                  = (Inr proxy, pmn)
              \<and> pm st' = clear_failures proxy pmn"
      by simp
    then show ?thesis by blast
  qed
  have o: "res = Inr vid"
    if "ExtractVideoId h \<in> set (calls st') \<and> extract_video_id L H h = Inr vid" for h vid
  proof -
    from that have "ExtractVideoId h \<notin> set (failed_passes ?u ps)"
      using extract_in_failed_passes [OF _ ps(1), of h ?u] by auto
    with that log have "ExtractVideoId h \<in> set (final_events ?u en)"
      by simp
    from extract_in_final_events [OF this en] that res show ?thesis
      by simp
  qed
  have x: "\<exists>ps a. calls st' = failed_passes ?u ps @ failed_pass ?u a
              \<and> length ps = 9
              \<and> list_all (attempt_failed L H) (ps @ [a])
              \<and> res = Inl (YouTubeScraperError
                            (''Max retry attempts reached: '' @ str_exn (snd (snd a))))"
    if "length (filter is_caught (calls st')) = 10"
  proof -
    from that n ps(2) have "is_exhausted en" "length ps = 9"
      by (auto split: if_splits)
    then obtain a where e: "en = Exhausted a"
      by (cases en) simp_all
    with log res ps(1) en \<open>length ps = 9\<close>
    have "calls st' = failed_passes ?u ps @ failed_pass ?u a
              \<and> length ps = 9
              \<and> list_all (attempt_failed L H) (ps @ [a])
              \<and> res = Inl (YouTubeScraperError
                            (''Max retry attempts reached: '' @ str_exn (snd (snd a))))"
      by simp
    then show ?thesis by blast
  qed
  have y: "length (filter is_caught (calls st')) = 10"
    if "\<exists>m. res = Inl (YouTubeScraperError m)"
  proof (cases en)
    case (ProxyFailed e)
    with that res en show ?thesis by (cases e) auto
  next
    case (Succeeded proxy html vid)
    with that res show ?thesis by auto
  next
    case (Escaped proxy html e)
    with that res en show ?thesis by auto
  next
    case (Exhausted a)
    with en n show ?thesis by (simp add: max_attempts_def)
  qed
  from c1 c2 c3 c4 s o x y show ?thesis by blast
qed

lemma budget_runs:
  "length (filter is_caught
      (calls (snd (get_first_video_id no_loads no_hrefs refusing_world ''cats'' init_pm)))) = 10
   \<and> fst (get_first_video_id no_loads no_hrefs refusing_world ''cats'' init_pm)
       = Inl (YouTubeScraperError
               ''Max retry attempts reached: Request failed: connection refused'')
   \<and> (\<exists>ps a. calls (snd (get_first_video_id no_loads no_hrefs refusing_world ''cats'' init_pm))
                = failed_passes (search_url ''cats'') ps @ failed_pass (search_url ''cats'') a
            \<and> length ps = 9)
   \<and> fst (get_first_video_id no_loads no_hrefs serving_world ''cats'' init_pm)
       = Inr (JStr ''abc123'')
   \<and> (\<exists>ps proxy html.
         calls (snd (get_first_video_id no_loads no_hrefs serving_world ''cats'' init_pm))
           = failed_passes (search_url ''cats'') ps
             @ [GetProxy, MakeRequest (search_url ''cats'') proxy,
                ExtractVideoId html, ClearFailures proxy]
       \<and> extract_video_id no_loads no_hrefs html = Inr (JStr ''abc123''))"
proof -
  let ?r = "get_first_video_id no_loads no_hrefs refusing_world ''cats'' init_pm"
  let ?v = "get_first_video_id no_loads no_hrefs serving_world ''cats'' init_pm"
  have "0 \<le> max_attempts" by simp
  from refusing_loop [OF this, of no_loads no_hrefs "search_url ''cats''" None
         "\<lparr>pm = init_pm, calls = []\<rparr>"]
  have r: "fst ?r = Inl (YouTubeScraperError
               ''Max retry attempts reached: Request failed: connection refused'')"
      "length (filter is_caught (calls (snd ?r))) = 10"
    by (simp_all add: get_first_video_id_def search_url_def max_attempts_def)
  have v: "fst ?v = Inr (JStr ''abc123'')"
    by (rule serving_run)
  have pr: "?r = (fst ?r, snd ?r)" and pv: "?v = (fst ?v, snd ?v)"
    by simp_all
  from get_first_video_id_budget [OF pr] r(2)
  have a: "\<exists>ps a. calls (snd ?r)
                = failed_passes (search_url ''cats'') ps @ failed_pass (search_url ''cats'') a
            \<and> length ps = 9"
    by blast
  from get_first_video_id_budget [OF pv] v
  have b: "\<exists>ps proxy html. calls (snd ?v)
           = failed_passes (search_url ''cats'') ps
             @ [GetProxy, MakeRequest (search_url ''cats'') proxy,
                ExtractVideoId html, ClearFailures proxy]
       \<and> extract_video_id no_loads no_hrefs html = Inr (JStr ''abc123'')"
    by blast
  from r v a b show ?thesis by blast
qed

text \<open>
  C1 at the pool of two proxies on one host, with 3 failures counted for the second line
  and 4 for the first. The second proxy is drawn and its page holds an identifier: the
  run returns it after one pass and calls \<^verbatim>\<open>clear_failures\<close> for the second proxy, but
  the entry deleted is the first proxy's; the count of the proxy that was used is still 3.
\<close>

theorem success_keeps_used_proxy_count:
  "format_proxy_url ''1.2.3.4:81:u2:p2'' = Inr ''http://u2:p2@1.2.3.4:81''
   \<and> proxy_failures counted_pm ''1.2.3.4:81:u2:p2'' = Some 3
   \<and> proxy_failures counted_pm ''1.2.3.4:80:u1:p1'' = Some 4
   \<and> fst (get_first_video_id no_loads no_hrefs shared_serving_world ''cats'' counted_pm)
       = Inr (JStr ''abc123'')
   \<and> calls (snd (get_first_video_id no_loads no_hrefs shared_serving_world ''cats'' counted_pm))
       = [GetProxy, MakeRequest (search_url ''cats'') ''http://u2:p2@1.2.3.4:81'',
          ExtractVideoId result_page, ClearFailures ''http://u2:p2@1.2.3.4:81'']
   \<and> proxy_failures
         (pm (snd (get_first_video_id no_loads no_hrefs shared_serving_world ''cats'' counted_pm)))
         ''1.2.3.4:81:u2:p2'' = Some 3
   \<and> proxy_failures
         (pm (snd (get_first_video_id no_loads no_hrefs shared_serving_world ''cats'' counted_pm)))
         ''1.2.3.4:80:u1:p1'' = None"
proof -
  have fmt: "format_proxy_url ''1.2.3.4:81:u2:p2'' = Inr ''http://u2:p2@1.2.3.4:81''"
    by (simp add: format_proxy_url_def)
  have k: "storage_key ''http://u2:p2@1.2.3.4:81'' (counted_pm\<lparr>current_proxies := shared_host_pool\<rparr>)
             = ''1.2.3.4:80:u1:p1''"
    by (simp add: storage_key_def shared_host_pool_def)
  have t: "proxy_failures counted_pm ''1.2.3.4:81:u2:p2'' = Some 3"
      "proxy_failures counted_pm ''1.2.3.4:80:u1:p1'' = Some 4"
    by (simp_all add: counted_pm_def)
  have c: "proxy_failures (clear_failures ''http://u2:p2@1.2.3.4:81''
              (counted_pm\<lparr>current_proxies := shared_host_pool\<rparr>)) ''1.2.3.4:81:u2:p2'' = Some 3"
      "proxy_failures (clear_failures ''http://u2:p2@1.2.3.4:81''
              (counted_pm\<lparr>current_proxies := shared_host_pool\<rparr>)) ''1.2.3.4:80:u1:p1'' = None"
    by (simp_all add: clear_failures_def Let_def k t dom_def)
  from shared_serving_run fmt t c show ?thesis
    by simp
qed

subsection \<open>What the handler catches and what escapes\<close>

text \<open>
  C4, as stated, fails twice. The \<^verbatim>\<open>ProxyError\<close> that \<^verbatim>\<open>format_proxy_url\<close> raises inside
  \<^verbatim>\<open>get_proxy\<close> for a malformed line escapes the loop, with a pool that is not empty and
  a budget that is not used up. And a status outside 2xx is not an error as such:
  \<^verbatim>\<open>raise_for_status\<close> raises for 400 to 599 only, so a response with status 302 and a
  long body is accepted, nothing is caught and no failure is recorded.
\<close>

theorem invalid_format_escapes_and_redirect_passes:
  "fst (load_proxies (proxy_file (malformed_world 0)) init_pm) = [''a:b:c'']
   \<and> fst (get_first_video_id no_loads no_hrefs malformed_world ''cats'' init_pm)
       = Inl (ProxyError ''Invalid proxy format: a:b:c'')
   \<and> redirected (search_url ''cats'') ''http://1.2.3.4:80''
       = Response \<lparr>status_code = 302, text_of = result_page, error_text = []\<rparr>
   \<and> make_request redirected (search_url ''cats'') ''http://1.2.3.4:80'' = Inr result_page
   \<and> get_first_video_id no_loads no_hrefs redirect_world ''cats'' init_pm
       = (Inr (JStr ''abc123''),
          \<lparr>pm = \<lparr>proxy_failures = Map.empty, current_proxies = [''1.2.3.4:80'']\<rparr>,
           calls = [GetProxy, MakeRequest (search_url ''cats'') ''http://1.2.3.4:80'',
                    ExtractVideoId result_page, ClearFailures ''http://1.2.3.4:80'']\<rparr>)"
proof -
  have "1000 \<le> length result_page"
    by (simp add: result_page_def)
  then have m: "make_request redirected (search_url ''cats'') ''http://1.2.3.4:80'' = Inr result_page"
    by (simp add: make_request_def redirected_def)
  have r: "redirected (search_url ''cats'') ''http://1.2.3.4:80''
       = Response \<lparr>status_code = 302, text_of = result_page, error_text = []\<rparr>"
    by (simp add: redirected_def)
  from malformed_run m r redirect_run show ?thesis
    by simp
qed

text \<open>
  C4, amended. Every run is a sequence of fewer than 10 failed passes and one ending. In
  each failed pass the selection returns a proxy, the request or the extraction through
  it raises a scraper error, the handler catches it, and the manager goes into the next
  pass in the state the selection left with \<^verbatim>\<open>record_failure\<close> applied for that proxy;
  the tenth failed pass ends the run in the same way. Every error of the request (no
  response, a status from 400 to 599, a short body) is a scraper error, and so is the
  extractor's not-found error. An error that the run ends with is the no-proxies
  \<^verbatim>\<open>ProxyError\<close>, the invalid-format \<^verbatim>\<open>ProxyError\<close>, the max-retries error with the
  text of a scraper error, or the \<^verbatim>\<open>AttributeError\<close> of the extractor. When the run ends
  with a \<^verbatim>\<open>ProxyError\<close>, the log ends with the selection that raised it and the
  manager is left as that selection left it: no exception caught, no failure recorded,
  no delay. If the loaded list is empty at the first pass, the run is that single
  selection.
\<close>

theorem retry_loop_error_handling:
  assumes "get_first_video_id L H env search_term s = (res, st')"
  shows "(\<exists>ps en sn pmn.
              calls st' = failed_passes (search_url search_term) ps
                          @ final_events (search_url search_term) en
            \<and> res = final_result en
            \<and> list_all (attempt_failed L H) ps
            \<and> length ps < 10
            \<and> ending_ok L H (length ps) en
            \<and> replay L H env (search_url search_term) 0 s ps = Some sn
            \<and> get_proxy (proxy_file (env (length ps))) (draw (env (length ps))) sn
                = (used_proxy en, pmn)
            \<and> pm st' = final_pm en pmn)
       \<and> (\<forall>e. res = Inl e \<longrightarrow>
             e = ProxyError ''No proxies available''
           \<or> (\<exists>l. e = ProxyError (''Invalid proxy format: '' @ l))
           \<or> (\<exists>e'. is_scraper_error e'
                 \<and> e = YouTubeScraperError (''Max retry attempts reached: '' @ str_exn e'))
           \<or> e = AttributeError)
       \<and> (\<forall>m. res = Inl (ProxyError m) \<longrightarrow>
             (\<exists>ps sn. calls st' = failed_passes (search_url search_term) ps @ [GetProxy]
                \<and> replay L H env (search_url search_term) 0 s ps = Some sn
                \<and> get_proxy (proxy_file (env (length ps))) (draw (env (length ps))) sn
                    = (Inl (ProxyError m), pm st')))
       \<and> (fst (load_proxies (proxy_file (env 0)) s) = [] \<longrightarrow>
             res = Inl (ProxyError ''No proxies available'') \<and> calls st' = [GetProxy]
             \<and> pm st' = snd (load_proxies (proxy_file (env 0)) s))
       \<and> (\<forall>sget url proxy e. make_request sget url proxy = Inl e \<longrightarrow> is_scraper_error e)
       \<and> (\<forall>html e. extract_video_id L H html = Inl e \<longrightarrow>
             is_scraper_error e \<or> e = AttributeError)"
proof -
  from get_first_video_id_shape [OF assms]
  obtain ps en sn pmn where
    log: "calls st' = failed_passes (search_url search_term) ps
                      @ final_events (search_url search_term) en"
    and res: "res = final_result en"
    and ps: "list_all (attempt_failed L H) ps" "length ps < 10"
    and en: "ending_ok L H (length ps) en"
    and rp: "replay L H env (search_url search_term) 0 s ps = Some sn"
    and gp: "get_proxy (proxy_file (env (length ps))) (draw (env (length ps))) sn
                = (used_proxy en, pmn)"
    and fp: "pm st' = final_pm en pmn"
    by blast
  let ?u = "search_url search_term"
  have a: "\<exists>ps en sn pmn. calls st' = failed_passes ?u ps @ final_events ?u en
            \<and> res = final_result en
            \<and> list_all (attempt_failed L H) ps
            \<and> length ps < 10
            \<and> ending_ok L H (length ps) en
            \<and> replay L H env ?u 0 s ps = Some sn
            \<and> get_proxy (proxy_file (env (length ps))) (draw (env (length ps))) sn
                = (used_proxy en, pmn)
            \<and> pm st' = final_pm en pmn"
    using log res ps en rp gp fp by blast
  have b: "e = ProxyError ''No proxies available''
           \<or> (\<exists>l. e = ProxyError (''Invalid proxy format: '' @ l))
           \<or> (\<exists>e'. is_scraper_error e'
                 \<and> e = YouTubeScraperError (''Max retry attempts reached: '' @ str_exn e'))
           \<or> e = AttributeError"
    if r: "res = Inl e" for e
  proof (cases en)
    case (ProxyFailed e0)
    with res r en have "selection_error e" by simp
    then show ?thesis by (auto dest: selection_error_cases)
  next
    case (Succeeded proxy html vid)
    with res r show ?thesis by simp
  next
    case (Escaped proxy html e0)
    with res r en have "extract_video_id L H html = Inl e" "\<not> is_scraper_error e"
      by simp_all
    then have "e = AttributeError"
      by (auto dest: extract_video_id_raises)
    then show ?thesis by simp
  next
    case (Exhausted x)
    with en have "is_scraper_error (snd (snd x))"
      by (cases x) (simp add: attempt_failed_def)
    with Exhausted res r show ?thesis by auto
  qed
  have c: "\<exists>ps sn. calls st' = failed_passes ?u ps @ [GetProxy]
                \<and> replay L H env ?u 0 s ps = Some sn
                \<and> get_proxy (proxy_file (env (length ps))) (draw (env (length ps))) sn
                    = (Inl (ProxyError m), pm st')"
    if r: "res = Inl (ProxyError m)" for m
  proof (cases en)
    case (ProxyFailed e0)
    with res r have "e0 = ProxyError m" by simp
    with ProxyFailed log rp gp fp
    have "calls st' = failed_passes ?u ps @ [GetProxy]
                \<and> replay L H env ?u 0 s ps = Some sn
                \<and> get_proxy (proxy_file (env (length ps))) (draw (env (length ps))) sn
                    = (Inl (ProxyError m), pm st')"
      by simp
    then show ?thesis by blast
  next
    case (Succeeded proxy html vid)
    with res r show ?thesis by simp
  next
    case (Escaped proxy html e0)
    with res r en show ?thesis by (auto dest: extract_video_id_raises)
  next
    case (Exhausted x)
    with res r show ?thesis by simp
  qed
  have d: "res = Inl (ProxyError ''No proxies available'') \<and> calls st' = [GetProxy]
             \<and> pm st' = snd (load_proxies (proxy_file (env 0)) s)"
    if e: "fst (load_proxies (proxy_file (env 0)) s) = []"
  proof -
    have "get_proxy (proxy_file (env 0)) (draw (env 0)) s
            = (Inl (ProxyError ''No proxies available''), snd (load_proxies (proxy_file (env 0)) s))"
      using e by (simp add: get_proxy_def split_beta)
    then have g: "get_proxy (proxy_file (env 0)) (draw (env 0)) (pm \<lparr>pm = s, calls = []\<rparr>)
            = (Inl (ProxyError ''No proxies available''), snd (load_proxies (proxy_file (env 0)) s))"
      by simp
    have "0 < max_attempts" by (simp add: max_attempts_def)
    from loop_proxy_error [where a = 0 and env = env and st = "\<lparr>pm = s, calls = []\<rparr>"
            and L = L and H = H and url = ?u and le = None, OF this g]
    have "retry_loop L H env ?u 0 None \<lparr>pm = s, calls = []\<rparr>
            = (Inl (ProxyError ''No proxies available''),
               \<lparr>pm = snd (load_proxies (proxy_file (env 0)) s), calls = [GetProxy]\<rparr>)"
      by simp
    with assms show ?thesis
      by (simp add: get_first_video_id_def search_url_def)
  qed
  have e: "\<forall>sget url proxy e. make_request sget url proxy = Inl e \<longrightarrow> is_scraper_error e"
    by (auto dest: make_request_raises)
  have f: "\<forall>html e. extract_video_id L H html = Inl e \<longrightarrow>
             is_scraper_error e \<or> e = AttributeError"
    by (auto dest: extract_video_id_raises)
  from a b c d e f show ?thesis by blast
qed

theorem retry_loop_error_handling_witness:
  "get_first_video_id no_loads no_hrefs vanishing_world ''cats'' init_pm
     = (Inl (ProxyError ''No proxies available''),
        \<lparr>pm = \<lparr>proxy_failures = [''1.2.3.4:80'' \<mapsto> 1], current_proxies = [''1.2.3.4:80'']\<rparr>,
         calls = [GetProxy, MakeRequest (search_url ''cats'') ''http://1.2.3.4:80'',
                  Caught (YouTubeScraperError ''Request failed: connection refused''),
                  RecordFailure ''http://1.2.3.4:80'', Sleep, GetProxy]\<rparr>)
   \<and> (\<exists>ps sn.
         [GetProxy, MakeRequest (search_url ''cats'') ''http://1.2.3.4:80'',
          Caught (YouTubeScraperError ''Request failed: connection refused''),
          RecordFailure ''http://1.2.3.4:80'', Sleep, GetProxy]
           = failed_passes (search_url ''cats'') ps @ [GetProxy]
       \<and> replay no_loads no_hrefs vanishing_world (search_url ''cats'') 0 init_pm ps = Some sn
       \<and> get_proxy (proxy_file (vanishing_world (length ps))) (draw (vanishing_world (length ps))) sn
           = (Inl (ProxyError ''No proxies available''),
              \<lparr>proxy_failures = [''1.2.3.4:80'' \<mapsto> 1], current_proxies = [''1.2.3.4:80'']\<rparr>))"
  using retry_loop_error_handling [OF vanishing_run] vanishing_run
  by simp

end
